theory Spec2Isabelle
  imports Main "HOL-Library.Sublist" "HOL-Library.AList" "HOL-Library.Multiset"
begin

section \<open>Python strings\<close>

text \<open>
  A Python \<open>str\<close> is modelled as a \<open>string\<close>: the list of its code points, for code
  points below 256. \<open>is_space\<close> is \<open>str.isspace\<close> on that range (the characters that
  \<open>str.strip()\<close>, \<open>str.split()\<close> and the regular expression class \<open>\s\<close> treat as
  whitespace): U+0009 to U+000D, U+001C to U+0020, U+0085 and U+00A0.
\<close>

definition is_space :: "char \<Rightarrow> bool" where
  "is_space c = ((of_char c :: nat) \<in> set [9, 10, 11, 12, 13, 28, 29, 30, 31, 32, 133, 160])"

definition strip :: "string \<Rightarrow> string" where
  "strip s = rev (dropWhile is_space (rev (dropWhile is_space s)))"

definition startswith :: "string \<Rightarrow> string \<Rightarrow> bool" where
  "startswith s p = (take (length p) s = p)"

text \<open>\<open>s.split(c, 1)\<close> for a one-character separator: at most one split, at the first \<open>c\<close>.\<close>

definition split1 :: "char \<Rightarrow> string \<Rightarrow> string list" where
  "split1 c s =
     (if c \<in> set s then [takeWhile (\<lambda>x. x \<noteq> c) s, tl (dropWhile (\<lambda>x. x \<noteq> c) s)] else [s])"

text \<open>\<open>sep.join(parts)\<close>.\<close>

fun join :: "string \<Rightarrow> string list \<Rightarrow> string" where
  "join sep [] = []"
| "join sep [x] = x"
| "join sep (x # y # ys) = x @ sep @ join sep (y # ys)"

section \<open>Shell history lines\<close>

text \<open>
  \<open>ShellHistoryMonitor._parse_history_line\<close> of \<open>comprehensive_monitor.py\<close>. The source
  is annotated \<open>Optional[str]\<close> but returns a string on every path.
\<close>

definition parse_history_line :: "string \<Rightarrow> string" where
  "parse_history_line line =
     (if startswith line '': '' \<and> length (split1 CHR '';'' line) > 1
      then strip (split1 CHR '';'' line ! 1)
      else strip line)"

text \<open>
  The body of the loop over the lines read in \<open>_process_history_update\<close>: the command of
  the event that one raw line of the file adds, or \<open>None\<close> when the line adds none.
\<close>

definition history_command :: "string \<Rightarrow> string option" where
  "history_command raw =
     (let line = strip raw in
      if line \<noteq> [] \<and> \<not> startswith line ''#''
      then (let command = parse_history_line line in
            if command \<noteq> [] then Some command else None)
      else None)"

text \<open>
  The same loop body as it is written inline in \<open>_monitor_shell_history\<close> of
  \<open>activity_monitor.py\<close> (and again in \<open>_read_new_history\<close> of \<open>terminal_monitor.py\<close>):
  the command that is passed on, or \<open>None\<close>.
\<close>

definition basic_history_command :: "string \<Rightarrow> string option" where
  "basic_history_command raw =
     (let line = strip raw in
      if line \<noteq> [] \<and> \<not> startswith line ''#''
      then (let command =
                  (if startswith line '': ''
                   then (let parts = split1 CHR '';'' line in
                         if length parts > 1 then strip (parts ! 1) else line)
                   else line)
            in if command \<noteq> [] then Some command else None)
      else None)"

text \<open>The spec's words: "the text after the first \<open>;\<close>".\<close>

definition after_first_semicolon :: "string \<Rightarrow> string" where
  "after_first_semicolon s = tl (dropWhile (\<lambda>x. x \<noteq> CHR '';'') s)"

section \<open>Python values used by the monitors\<close>

text \<open>
  The exceptions that the modelled code can raise, each with its message; \<open>str_exn\<close> is
  \<open>str(e)\<close>.
\<close>

datatype exn = IndexError string | OverflowError string | AttributeError string | TypeError string
  | PermissionError string | OSError string | JSONDecodeError string

fun str_exn :: "exn \<Rightarrow> string" where
  "str_exn (IndexError m) = m"
| "str_exn (OverflowError m) = m"
| "str_exn (AttributeError m) = m"
| "str_exn (TypeError m) = m"
| "str_exn (PermissionError m) = m"
| "str_exn (OSError m) = m"
| "str_exn (JSONDecodeError m) = m"

abbreviation nl :: string where
  "nl \<equiv> [CHR 0x0A]"

text \<open>
  \<open>s.split(c)\<close> for a one-character separator: always at least one part; \<open>cur\<close> is
  the part being read, reversed.
\<close>

fun split_from :: "char \<Rightarrow> string \<Rightarrow> string \<Rightarrow> string list" where
  "split_from c cur [] = [rev cur]"
| "split_from c cur (x # xs) =
     (if x = c then rev cur # split_from c [] xs else split_from c (x # cur) xs)"

definition split_on :: "char \<Rightarrow> string \<Rightarrow> string list" where
  "split_on c s = split_from c [] s"

text \<open>\<open>s.split()\<close>: the maximal runs of non-whitespace characters; \<open>cur\<close> is the run being read, reversed.\<close>

fun split_ws_from :: "string \<Rightarrow> string \<Rightarrow> string list" where
  "split_ws_from cur [] = (if cur = [] then [] else [rev cur])"
| "split_ws_from cur (c # cs) =
     (if is_space c
      then (if cur = [] then split_ws_from [] cs else rev cur # split_ws_from [] cs)
      else split_ws_from (c # cur) cs)"

definition split_ws :: "string \<Rightarrow> string list" where
  "split_ws s = split_ws_from [] s"

text \<open>Decimal rendering of integers, as \<open>str(n)\<close> and f-strings do.\<close>

definition digit :: "nat \<Rightarrow> char" where
  "digit n = ''0123456789'' ! n"

fun show_nat :: "nat \<Rightarrow> string" where
  "show_nat n = (if n < 10 then [digit n] else show_nat (n div 10) @ [digit (n mod 10)])"

definition show_int :: "int \<Rightarrow> string" where
  "show_int i = (if i < 0 then CHR ''-'' # show_nat (nat (- i)) else show_nat (nat i))"

text \<open>
  A naive \<open>datetime\<close> is modelled as its instant: the number of microseconds since
  \<open>datetime.min\<close> (0001-01-01T00:00:00), an integer between 0 and \<open>datetime_max\<close>
  (9999-12-31T23:59:59.999999; 3652059 days). The source stores
  \<open>timestamp.isoformat()\<close> in each entry, reads it back with \<open>datetime.fromisoformat\<close> and
  sorts by the stored string; on naive datetimes \<open>isoformat\<close> is injective and its
  lexicographic order is the order of the instants (fields are zero-padded), so entries
  hold the instant itself. \<open>a - timedelta(minutes=m)\<close> raises \<open>OverflowError\<close> when the
  result is not a datetime.
\<close>

type_synonym datetime = int

definition datetime_max :: int where
  "datetime_max = 3652059 * 86400000000 - 1"

definition minus_minutes :: "datetime \<Rightarrow> int \<Rightarrow> exn + datetime" where
  "minus_minutes t m =
     (let r = t - m * 60000000 in
      if 0 \<le> r \<and> r \<le> datetime_max then Inr r else Inl (OverflowError ''date value out of range''))"

definition pad2 :: "nat \<Rightarrow> string" where
  "pad2 n = [digit (n div 10), digit (n mod 10)]"

text \<open>\<open>timestamp.strftime('%H:%M:%S')\<close>.\<close>

definition strftime_hms :: "datetime \<Rightarrow> string" where
  "strftime_hms t =
     pad2 (nat ((t div 3600000000) mod 24)) @ '':'' @
     pad2 (nat ((t div 60000000) mod 60)) @ '':'' @
     pad2 (nat ((t div 1000000) mod 60))"

text \<open>
  \<open>collections.deque(maxlen=n)\<close>, oldest entry first. \<open>append\<close> on a full deque
  discards the entry at the left end; with \<open>maxlen=0\<close> it discards the new entry.
\<close>

definition deque_append :: "nat \<Rightarrow> 'a list \<Rightarrow> 'a \<Rightarrow> 'a list" where
  "deque_append maxlen d x =
     (if maxlen = 0 then d
      else if length (d @ [x]) > maxlen then tl (d @ [x]) else d @ [x])"

text \<open>\<open>xs[-n:]\<close> for a positive literal \<open>n\<close>.\<close>

definition last_n :: "nat \<Rightarrow> 'a list \<Rightarrow> 'a list" where
  "last_n n xs = drop (length xs - n) xs"

section \<open>The activity monitor\<close>

record command_entry =
  ce_timestamp :: datetime
  ce_command :: string
  ce_directory :: string
  ce_duration :: "int option"

record output_entry =
  oe_timestamp :: datetime
  oe_command :: string
  oe_output :: string
  oe_directory :: string

record dir_change_entry =
  dc_timestamp :: datetime
  dc_from :: string
  dc_to :: string

record file_op_entry =
  fo_timestamp :: datetime
  fo_operation :: string
  fo_filepath :: string
  fo_directory :: string

record session_data =
  start_time :: datetime
  commands :: "command_entry list"
  outputs :: "output_entry list"
  directory_changes :: "dir_change_entry list"
  file_operations :: "file_op_entry list"

text \<open>
  The state of \<open>ComprehensiveTerminalMonitor\<close> that \<open>get_comprehensive_context\<close> reads:
  the lines of \<open>terminal_buffer\<close> (a deque of at most 2000) and the lengths of three lists of
  \<open>session_data\<close>.
\<close>

record comprehensive_monitor =
  terminal_buffer :: "string list"
  cm_commands :: nat
  cm_processes :: nat
  cm_files_accessed :: nat

record monitor =
  max_context_size :: int
  max_history_items :: nat
  command_history :: "command_entry list"
  output_history :: "output_entry list"
  context_buffer :: string
  current_directory :: string
  session_start :: datetime
  session_data :: session_data
  comprehensive_monitor :: "comprehensive_monitor option"
  is_comprehensive_monitoring :: bool

text \<open>
  \<open>__init__\<close>, with the working directory, the clock and the outcome of
  \<open>_try_start_comprehensive_monitoring\<close> (the monitor it built, if any, and whether
  it started) as arguments. A negative \<open>max_history_items\<close>
  makes \<open>deque\<close> raise in the constructor, so the bound is a \<open>nat\<close>.
\<close>

definition init_monitor ::
  "int \<Rightarrow> nat \<Rightarrow> string \<Rightarrow> datetime \<Rightarrow> comprehensive_monitor option \<Rightarrow> bool \<Rightarrow> monitor" where
  "init_monitor mcs mhi cwd now cm started =
     \<lparr>max_context_size = mcs, max_history_items = mhi,
      command_history = [], output_history = [], context_buffer = [],
      current_directory = cwd, session_start = now,
      session_data = \<lparr>start_time = now, commands = [], outputs = [],
                      directory_changes = [], file_operations = []\<rparr>,
      comprehensive_monitor = cm, is_comprehensive_monitoring = started\<rparr>"

text \<open>
  The \<open>while\<close> loop of \<open>_update_context_buffer\<close>. The source compares the length with the
  float \<open>max_context_size * 0.8\<close>; for integers that is \<open>5 * length > 4 * max_context_size\<close>.
  \<open>lines.pop(0)\<close> on an empty list raises \<open>IndexError\<close>.
\<close>

fun trim_lines :: "int \<Rightarrow> string list \<Rightarrow> exn + string list" where
  "trim_lines m [] =
     (if 5 * int (length (join nl [])) > 4 * m then Inl (IndexError ''pop from empty list'') else Inr [])"
| "trim_lines m (l # ls) =
     (if 5 * int (length (join nl (l # ls))) > 4 * m then trim_lines m ls else Inr (l # ls))"

text \<open>
  The operations mutate the monitor and may raise: each returns the exception raised, if
  any, together with the monitor as the call leaves it.
\<close>

definition update_context_buffer :: "string \<Rightarrow> monitor \<Rightarrow> exn option \<times> monitor" where
  "update_context_buffer text s =
     (let s1 = s\<lparr>context_buffer := context_buffer s @ text @ nl\<rparr> in
      if int (length (context_buffer s1)) > max_context_size s1
      then (case trim_lines (max_context_size s1) (split_on CHR 0x0A (context_buffer s1)) of
              Inl e \<Rightarrow> (Some e, s1)
            | Inr lines \<Rightarrow> (None, s1\<lparr>context_buffer := join nl lines\<rparr>))
      else (None, s1))"

text \<open>
  In each \<open>log_\<close> operation \<open>now\<close> is what \<open>datetime.now()\<close> returns during the call; it
  is the timestamp when the caller passes none.
\<close>

definition command_line :: "datetime \<Rightarrow> string \<Rightarrow> string" where
  "command_line timestamp command = ''['' @ strftime_hms timestamp @ ''] $ '' @ command"

definition log_command :: "datetime \<Rightarrow> string \<Rightarrow> datetime option \<Rightarrow> monitor \<Rightarrow> exn option \<times> monitor" where
  "log_command now command ts s =
     (let timestamp = (case ts of None \<Rightarrow> now | Some t \<Rightarrow> t);
          command_entry = \<lparr>ce_timestamp = timestamp, ce_command = command,
                           ce_directory = current_directory s, ce_duration = None\<rparr>;
          s1 = s\<lparr>command_history :=
                   deque_append (max_history_items s) (command_history s) command_entry\<rparr>;
          s2 = s1\<lparr>session_data :=
                   (session_data s1)\<lparr>commands := commands (session_data s1) @ [command_entry]\<rparr>\<rparr>
      in update_context_buffer (command_line timestamp command) s2)"

definition log_output ::
  "datetime \<Rightarrow> string \<Rightarrow> string \<Rightarrow> datetime option \<Rightarrow> monitor \<Rightarrow> exn option \<times> monitor" where
  "log_output now output command ts s =
     (let timestamp = (case ts of None \<Rightarrow> now | Some t \<Rightarrow> t);
          output_entry = \<lparr>oe_timestamp = timestamp, oe_command = command,
                          oe_output = output, oe_directory = current_directory s\<rparr>;
          s1 = s\<lparr>output_history :=
                   deque_append (max_history_items s) (output_history s) output_entry\<rparr>;
          s2 = s1\<lparr>session_data :=
                   (session_data s1)\<lparr>outputs := outputs (session_data s1) @ [output_entry]\<rparr>\<rparr>
      in if strip output \<noteq> [] then update_context_buffer output s2 else (None, s2))"

definition log_directory_change ::
  "datetime \<Rightarrow> string \<Rightarrow> datetime option \<Rightarrow> monitor \<Rightarrow> exn option \<times> monitor" where
  "log_directory_change now new_directory ts s =
     (let timestamp = (case ts of None \<Rightarrow> now | Some t \<Rightarrow> t);
          old_directory = current_directory s;
          s1 = s\<lparr>current_directory := new_directory\<rparr>;
          dir_change_entry = \<lparr>dc_timestamp = timestamp, dc_from = old_directory,
                              dc_to = new_directory\<rparr>;
          s2 = s1\<lparr>session_data :=
                   (session_data s1)\<lparr>directory_changes :=
                      directory_changes (session_data s1) @ [dir_change_entry]\<rparr>\<rparr>
      in update_context_buffer (''['' @ strftime_hms timestamp @ ''] cd '' @ new_directory) s2)"

definition log_file_operation ::
  "datetime \<Rightarrow> string \<Rightarrow> string \<Rightarrow> datetime option \<Rightarrow> monitor \<Rightarrow> exn option \<times> monitor" where
  "log_file_operation now operation filepath ts s =
     (let timestamp = (case ts of None \<Rightarrow> now | Some t \<Rightarrow> t);
          file_op_entry = \<lparr>fo_timestamp = timestamp, fo_operation = operation,
                           fo_filepath = filepath, fo_directory = current_directory s\<rparr>;
          s1 = s\<lparr>session_data :=
                   (session_data s)\<lparr>file_operations :=
                      file_operations (session_data s) @ [file_op_entry]\<rparr>\<rparr>
      in update_context_buffer
           (''['' @ strftime_hms timestamp @ ''] '' @ operation @ '': '' @ filepath) s1)"

text \<open>
  The four synchronous appends of the front end, and a sequence of them; a sequence
  stops at the first call that raises, as its caller does.
\<close>

datatype append_call =
    LogCommand datetime string "datetime option"
  | LogOutput datetime string string "datetime option"
  | LogDirectoryChange datetime string "datetime option"
  | LogFileOperation datetime string string "datetime option"

fun append_step :: "append_call \<Rightarrow> monitor \<Rightarrow> exn option \<times> monitor" where
  "append_step (LogCommand now command ts) s = log_command now command ts s"
| "append_step (LogOutput now output command ts) s = log_output now output command ts s"
| "append_step (LogDirectoryChange now d ts) s = log_directory_change now d ts s"
| "append_step (LogFileOperation now operation filepath ts) s =
     log_file_operation now operation filepath ts s"

fun appends :: "append_call list \<Rightarrow> monitor \<Rightarrow> exn option \<times> monitor" where
  "appends [] s = (None, s)"
| "appends (c # cs) s =
     (case append_step c s of
        (Some e, s') \<Rightarrow> (Some e, s')
      | (None, s') \<Rightarrow> appends cs s')"

text \<open>The bounds of the three buffers.\<close>

definition bounded :: "monitor \<Rightarrow> bool" where
  "bounded s \<longleftrightarrow> length (command_history s) \<le> max_history_items s \<and>
     length (output_history s) \<le> max_history_items s \<and>
     int (length (context_buffer s)) \<le> max_context_size s"

fun is_log_command :: "append_call \<Rightarrow> bool" where
  "is_log_command (LogCommand now command ts) = True"
| "is_log_command c = False"

fun is_log_output :: "append_call \<Rightarrow> bool" where
  "is_log_output (LogOutput now output command ts) = True"
| "is_log_output c = False"

section \<open>The session summary\<close>

text \<open>
  The loop of \<open>_get_most_used_commands\<close>. \<open>command_counts\<close> is a \<open>dict\<close>: an association
  list in insertion order, where assigning to a key that is present keeps its place.
  \<open>command.split()[0]\<close> raises \<open>IndexError\<close> when \<open>split()\<close> is empty.
\<close>

definition command_basename :: "string \<Rightarrow> exn + string" where
  "command_basename command =
     (if command \<noteq> []
      then (case split_ws command of [] \<Rightarrow> Inl (IndexError ''list index out of range'') | w # ws \<Rightarrow> Inr w)
      else Inr [])"

definition dict_get :: "('k \<times> 'v) list \<Rightarrow> 'k \<Rightarrow> 'v \<Rightarrow> 'v" where
  "dict_get d k dflt = (case map_of d k of None \<Rightarrow> dflt | Some v \<Rightarrow> v)"

fun count_commands :: "(string \<times> nat) list \<Rightarrow> command_entry list \<Rightarrow> exn + (string \<times> nat) list" where
  "count_commands command_counts [] = Inr command_counts"
| "count_commands command_counts (cmd_entry # rest) =
     (case command_basename (ce_command cmd_entry) of
        Inl e \<Rightarrow> Inl e
      | Inr cmd \<Rightarrow>
          count_commands (AList.update cmd (dict_get command_counts cmd 0 + 1) command_counts) rest)"

text \<open>
  \<open>sorted(items, key=lambda x: x[1], reverse=True)\<close> is a stable sort by descending
  count: equal counts keep the order of the items.
\<close>

definition sorted_by_count_desc :: "(string \<times> nat) list \<Rightarrow> (string \<times> nat) list" where
  "sorted_by_count_desc items = sort_key (\<lambda>x. - int (snd x)) items"

definition get_most_used_commands :: "monitor \<Rightarrow> exn + (string \<times> nat) list" where
  "get_most_used_commands s =
     (case count_commands [] (command_history s) of
        Inl e \<Rightarrow> Inl e
      | Inr command_counts \<Rightarrow> Inr (take 10 (sorted_by_count_desc command_counts)))"

fun recent_files_loop :: "string list \<Rightarrow> file_op_entry list \<Rightarrow> string list" where
  "recent_files_loop recent_files [] = recent_files"
| "recent_files_loop recent_files (file_op # rest) =
     (if fo_filepath file_op \<notin> set recent_files
      then recent_files_loop (recent_files @ [fo_filepath file_op]) rest
      else recent_files_loop recent_files rest)"

definition get_recent_files :: "monitor \<Rightarrow> string list" where
  "get_recent_files s = recent_files_loop [] (last_n 10 (file_operations (session_data s)))"

text \<open>The summary; \<open>session_duration\<close> is the \<open>timedelta\<close> in microseconds, not its string.\<close>

record summary =
  session_duration :: int
  total_commands :: nat
  total_outputs :: nat
  sm_current_directory :: string
  sm_directory_changes :: nat
  sm_file_operations :: nat
  most_used_commands :: "(string \<times> nat) list"
  recent_files :: "string list"

definition get_session_summary :: "datetime \<Rightarrow> monitor \<Rightarrow> exn + summary" where
  "get_session_summary now s =
     (case get_most_used_commands s of
        Inl e \<Rightarrow> Inl e
      | Inr most_used \<Rightarrow>
          Inr \<lparr>session_duration = now - session_start s,
               total_commands = length (command_history s),
               total_outputs = length (output_history s),
               sm_current_directory = current_directory s,
               sm_directory_changes = length (directory_changes (session_data s)),
               sm_file_operations = length (file_operations (session_data s)),
               most_used_commands = most_used,
               recent_files = get_recent_files s\<rparr>)"

section \<open>The rendered context\<close>

text \<open>
  What the code reads from the process environment: \<open>os.getenv\<close>, \<open>os.getcwd()\<close>
  (which raises when the working directory is gone) and \<open>os.getpid()\<close>.
\<close>

record os =
  getenv :: "string \<Rightarrow> string option"
  getcwd :: "exn + string"
  getpid :: nat

definition getenv_default :: "os \<Rightarrow> string \<Rightarrow> string \<Rightarrow> string" where
  "getenv_default os var dflt = (case getenv os var of None \<Rightarrow> dflt | Some v \<Rightarrow> v)"

text \<open>\<open>xs[-n:]\<close> for a parameter \<open>n \<ge> 0\<close>: all of \<open>xs\<close> when \<open>n = 0\<close>.\<close>

definition neg_slice :: "nat \<Rightarrow> 'a list \<Rightarrow> 'a list" where
  "neg_slice n xs = (if n = 0 then xs else last_n n xs)"

text \<open>The loop over \<open>important_vars\<close> in \<open>get_comprehensive_context\<close>.\<close>

definition important_vars :: "string list" where
  "important_vars = [''PATH'', ''HOME'', ''USER'', ''SHELL'', ''TERM'', ''PWD'', ''LANG'']"

fun env_lines :: "os \<Rightarrow> string list \<Rightarrow> string list" where
  "env_lines os [] = []"
| "env_lines os (var # vars) =
     (case getenv os var of
        None \<Rightarrow> env_lines os vars
      | Some v \<Rightarrow>
          if v \<noteq> []
          then (var @ ''='' @ (if length v > 100 then take 100 v @ ''...'' else v)) # env_lines os vars
          else env_lines os vars)"

text \<open>\<open>ComprehensiveTerminalMonitor.get_comprehensive_context\<close>.\<close>

definition get_comprehensive_context :: "os \<Rightarrow> nat \<Rightarrow> comprehensive_monitor \<Rightarrow> exn + string" where
  "get_comprehensive_context os lines cm =
     (case getcwd os of
        Inl e \<Rightarrow> Inl e
      | Inr cwd \<Rightarrow>
          Inr (join nl
            ([''=== SYSTEM CONTEXT ==='',
              ''User: '' @ getenv_default os ''USER'' ''unknown'',
              ''Shell: '' @ getenv_default os ''SHELL'' ''unknown'',
              ''PWD: '' @ cwd,
              ''Terminal: '' @ getenv_default os ''TERM'' ''unknown'',
              ''Session PID: '' @ show_nat (getpid os),
              '''',
              ''=== TERMINAL ACTIVITY ===''] @
             neg_slice lines (terminal_buffer cm) @
             ['''',
              ''=== SESSION STATISTICS ==='',
              ''Commands executed: '' @ show_nat (cm_commands cm),
              ''Processes monitored: '' @ show_nat (cm_processes cm),
              ''Files accessed: '' @ show_nat (cm_files_accessed cm),
              '''',
              ''=== ENVIRONMENT ===''] @
             env_lines os important_vars)))"

text \<open>
  The pairs \<open>("command", cmd)\<close> and \<open>("output", out)\<close> of \<open>get_context\<close>, the key they
  are sorted by, and the line each is rendered as.
\<close>

datatype entry = Command command_entry | Output output_entry

fun entry_timestamp :: "entry \<Rightarrow> datetime" where
  "entry_timestamp (Command cmd) = ce_timestamp cmd"
| "entry_timestamp (Output out) = oe_timestamp out"

fun render_entry :: "entry \<Rightarrow> string" where
  "render_entry (Command cmd) = ''$ '' @ ce_command cmd"
| "render_entry (Output out) =
     (if length (oe_output out) > 500 then take 500 (oe_output out) @ ''...'' else oe_output out)"

definition existing_block :: "string \<Rightarrow> string list" where
  "existing_block existing_content =
     (if existing_content \<noteq> []
      then [''=== EXISTING TERMINAL CONTENT ==='', existing_content, '''']
      else [])"

text \<open>
  \<open>get_context\<close>. \<open>existing_content\<close> is what \<open>_get_existing_terminal_content()\<close> returns
  (probes of tmux, screen, the history file and \<open>ps\<close>), \<open>now\<close> is \<open>datetime.now()\<close>.
  \<open>list.sort\<close> is stable, as \<open>sort_key\<close> is.
\<close>

definition get_context :: "os \<Rightarrow> string \<Rightarrow> datetime \<Rightarrow> bool \<Rightarrow> int \<Rightarrow> monitor \<Rightarrow> exn + string" where
  "get_context os existing_content now include_recent_only minutes s =
     (case (if is_comprehensive_monitoring s
            then (case comprehensive_monitor s of
                    None \<Rightarrow> None
                  | Some cm \<Rightarrow>
                      (case get_comprehensive_context os 100 cm of
                         Inl e \<Rightarrow> None
                       | Inr t \<Rightarrow> Some t))
            else None) of
        Some t \<Rightarrow> Inr t
      | None \<Rightarrow>
          if include_recent_only
          then (case minus_minutes now minutes of
                  Inl e \<Rightarrow> Inl e
                | Inr cutoff_time \<Rightarrow>
                    (let recent_commands =
                           filter (\<lambda>cmd. ce_timestamp cmd \<ge> cutoff_time) (command_history s);
                         recent_outputs =
                           filter (\<lambda>out. oe_timestamp out \<ge> cutoff_time) (output_history s);
                         context_parts = existing_block existing_content @
                           [''Current directory: '' @ current_directory s,
                            ''Recent activity (last '' @ show_int minutes @ '' minutes):''];
                         all_entries = map Command recent_commands @ map Output recent_outputs
                     in Inr (join nl
                          (context_parts @
                           map render_entry (last_n 20 (sort_key entry_timestamp all_entries))))))
          else Inr (join nl
                 (existing_block existing_content @
                  [''Current directory: '' @ current_directory s, context_buffer s])))"

text \<open>An environment with no variables set, for the examples.\<close>

definition bare_os :: os where
  "bare_os = \<lparr>getenv = Map.empty, getcwd = Inr ''/'', getpid = 1\<rparr>"

section \<open>File references\<close>

text \<open>
  \<open>re.findall(r'@([^\s@]+(?:\.[^\s@]*)?|/[^\s@]*)', message)\<close>. After an \<open>@\<close> the first
  alternative takes the longest run of characters that are neither whitespace nor \<open>@\<close>
  (at least one); the optional group then has nothing left to match, and the second
  alternative can only start where the first one already matches. So each match is the
  maximal run of such characters that follows an \<open>@\<close>, and the scan goes on behind it.
\<close>

definition ref_char :: "char \<Rightarrow> bool" where
  "ref_char c \<longleftrightarrow> \<not> is_space c \<and> c \<noteq> CHR ''@''"

function find_refs :: "string \<Rightarrow> string list" where
  "find_refs [] = []"
| "find_refs (c # cs) =
     (if c = CHR ''@'' \<and> takeWhile ref_char cs \<noteq> []
      then takeWhile ref_char cs # find_refs (dropWhile ref_char cs)
      else find_refs cs)"
  by pat_completeness auto
termination
  by (relation "measure length") (auto simp: length_dropWhile_le less_Suc_eq_le)

text \<open>\<open>os.path.join(a, b)\<close> on POSIX paths.\<close>

definition path_join :: "string \<Rightarrow> string \<Rightarrow> string" where
  "path_join a b =
     (if startswith b ''/'' then b
      else if a = [] \<or> last a = CHR ''/'' then a @ b
      else a @ ''/'' @ b)"

text \<open>
  The file system as \<open>parse_file_references\<close> sees it. At a path there is nothing, or a
  regular file with the outcome of \<open>open(...).read()\<close> (the text, or the exception raised),
  or a directory with the outcome of \<open>os.listdir\<close>. \<open>os.path.isfile\<close> and \<open>os.path.isdir\<close>
  do not raise.
\<close>

datatype node = NoEntry | RegularFile "exn + string" | Directory "exn + string list"

type_synonym filesystem = "string \<Rightarrow> node"

definition resolve_path :: "string \<Rightarrow> string \<Rightarrow> string" where
  "resolve_path current_dir m = (if \<not> startswith m ''/'' then path_join current_dir m else m)"

text \<open>The body of the \<open>try\<close>: the string stored for one match, or the exception raised.\<close>

definition read_reference :: "filesystem \<Rightarrow> string \<Rightarrow> exn + string" where
  "read_reference fs filepath =
     (case fs filepath of
        RegularFile r \<Rightarrow> (case r of Inl e \<Rightarrow> Inl e | Inr content \<Rightarrow> Inr content)
      | Directory r \<Rightarrow>
          (case r of
             Inl (PermissionError m) \<Rightarrow> Inr (''Permission denied: '' @ filepath)
           | Inl e \<Rightarrow> Inl e
           | Inr contents \<Rightarrow> Inr (''Directory contents:'' @ nl @ join nl contents))
      | NoEntry \<Rightarrow> Inr (''File not found: '' @ filepath))"

text \<open>The \<open>try\<close> with its handler \<open>except Exception as e\<close>.\<close>

definition try_reference :: "filesystem \<Rightarrow> string \<Rightarrow> exn + string" where
  "try_reference fs filepath =
     (case read_reference fs filepath of
        Inl e \<Rightarrow> Inr (''Error reading file: '' @ str_exn e)
      | Inr v \<Rightarrow> Inr v)"

text \<open>
  The loop over the matches; \<open>file_contents\<close> is a \<open>dict\<close> (an association list in
  insertion order). An exception that left an iteration would leave the function.
\<close>

fun references_loop ::
  "filesystem \<Rightarrow> string \<Rightarrow> (string \<times> string) list \<Rightarrow> string list \<Rightarrow> exn + (string \<times> string) list" where
  "references_loop fs current_dir file_contents [] = Inr file_contents"
| "references_loop fs current_dir file_contents (m # ms) =
     (case try_reference fs (resolve_path current_dir m) of
        Inl e \<Rightarrow> Inl e
      | Inr v \<Rightarrow> references_loop fs current_dir (AList.update m v file_contents) ms)"

definition parse_file_references ::
  "filesystem \<Rightarrow> string \<Rightarrow> monitor \<Rightarrow> exn + (string \<times> string) list" where
  "parse_file_references fs message s =
     references_loop fs (current_directory s) [] (find_refs message)"

text \<open>Two file systems for the examples: an empty one, and one with an unreadable file.\<close>

definition empty_fs :: filesystem where
  "empty_fs = (\<lambda>p. NoEntry)"

definition sample_fs :: filesystem where
  "sample_fs = (\<lambda>p. NoEntry)
     (''/etc/shadow'' := RegularFile (Inl (PermissionError ''[Errno 13] Permission denied'')))"

section \<open>Loading a session\<close>

text \<open>
  What \<open>json.load\<close> returns. After \<open>load_session\<close> the session data and the entries of
  the two histories are such values, whatever the file held, so the part of the monitor
  that \<open>load_session\<close> touches is modelled over them.
\<close>

datatype json = JNull | JBool bool | JNumber int | JString string
  | JArray "json list" | JObject "(string \<times> json) list"

record session_json =
  sj_session_data :: json
  sj_command_history :: "json list"
  sj_output_history :: "json list"
  sj_max_history_items :: nat

text \<open>\<open>value.get(key, default)\<close>: only a \<open>dict\<close> has the method.\<close>

definition json_get :: "json \<Rightarrow> string \<Rightarrow> json \<Rightarrow> exn + json" where
  "json_get v key dflt =
     (case v of
        JObject d \<Rightarrow> Inr (case map_of d key of None \<Rightarrow> dflt | Some x \<Rightarrow> x)
      | _ \<Rightarrow> Inl (AttributeError ''object has no attribute 'get' ''))"

text \<open>
  \<open>for x in value\<close>: the items of a list, the characters of a string, the keys of a
  \<open>dict\<close>; anything else is not iterable.
\<close>

definition json_iter :: "json \<Rightarrow> exn + json list" where
  "json_iter v =
     (case v of
        JArray xs \<Rightarrow> Inr xs
      | JString s \<Rightarrow> Inr (map (\<lambda>c. JString [c]) s)
      | JObject d \<Rightarrow> Inr (map (\<lambda>kv. JString (fst kv)) d)
      | _ \<Rightarrow> Inl (TypeError ''object is not iterable''))"

fun deque_extend :: "nat \<Rightarrow> 'a list \<Rightarrow> 'a list \<Rightarrow> 'a list" where
  "deque_extend maxlen d [] = d"
| "deque_extend maxlen d (x # xs) = deque_extend maxlen (deque_append maxlen d x) xs"

text \<open>
  The body of the \<open>try\<close> of \<open>load_session\<close>: the exception raised, if any, and the state
  at that point. \<open>file\<close> is the outcome of opening the file and \<open>json.load\<close>.
\<close>

definition load_session_try :: "exn + json \<Rightarrow> session_json \<Rightarrow> exn option \<times> session_json" where
  "load_session_try file s =
     (case file of
        Inl e \<Rightarrow> (Some e, s)
      | Inr data \<Rightarrow>
          (let s1 = s\<lparr>sj_session_data := data\<rparr>;
               s2 = s1\<lparr>sj_command_history := []\<rparr>;
               s3 = s2\<lparr>sj_output_history := []\<rparr>
           in case json_get (sj_session_data s3) ''commands'' (JArray []) of
                Inl e \<Rightarrow> (Some e, s3)
              | Inr commands_value \<Rightarrow>
                  (case json_iter commands_value of
                     Inl e \<Rightarrow> (Some e, s3)
                   | Inr cmds \<Rightarrow>
                       (let s4 = s3\<lparr>sj_command_history :=
                                   deque_extend (sj_max_history_items s3) (sj_command_history s3) cmds\<rparr>
                        in case json_get (sj_session_data s4) ''outputs'' (JArray []) of
                             Inl e \<Rightarrow> (Some e, s4)
                           | Inr outputs_value \<Rightarrow>
                               (case json_iter outputs_value of
                                  Inl e \<Rightarrow> (Some e, s4)
                                | Inr outs \<Rightarrow>
                                    (None, s4\<lparr>sj_output_history :=
                                       deque_extend (sj_max_history_items s4)
                                         (sj_output_history s4) outs\<rparr>))))))"

text \<open>\<open>load_session\<close>: the handler \<open>except Exception\<close> logs the exception and returns.\<close>

definition load_session :: "exn + json \<Rightarrow> session_json \<Rightarrow> session_json" where
  "load_session file s = snd (load_session_try file s)"

text \<open>A monitor that holds one command and one output, for the examples.\<close>

definition sample_session :: session_json where
  "sample_session =
     \<lparr>sj_session_data = JObject [(''start_time'', JString ''2024-01-15T10:30:00''),
         (''commands'', JArray [JObject [(''command'', JString ''ls'')]]),
         (''outputs'', JArray [JObject [(''output'', JString ''a.txt'')]]),
         (''directory_changes'', JArray []), (''file_operations'', JArray [])],
      sj_command_history = [JObject [(''command'', JString ''ls'')]],
      sj_output_history = [JObject [(''output'', JString ''a.txt'')]],
      sj_max_history_items = 100\<rparr>"

section \<open>The shell history sources\<close>

text \<open>
  The entries that the history monitors queue: the dictionaries with the keys
  \<open>timestamp\<close> (a string \<open>HH:MM:SS\<close>), \<open>command\<close> and \<open>source\<close>.
\<close>

record history_event =
  he_timestamp :: string
  he_command :: string
  he_source :: string

text \<open>
  \<open>ShellHistoryMonitor._read_new_history\<close> of \<open>terminal_monitor.py\<close>. \<open>file\<close> is the
  outcome of opening the history file and \<open>readlines()\<close>; \<open>queued\<close> is the deque
  \<open>self.commands\<close> (\<open>maxlen=100\<close>) that \<open>get_new_commands\<close> drains. \<open>timestamp\<close> stands for the clock
  readings \<open>datetime.now().strftime('%H:%M:%S')\<close> taken during the call.
\<close>

fun read_history_loop :: "string \<Rightarrow> history_event list \<Rightarrow> string list \<Rightarrow> history_event list" where
  "read_history_loop timestamp queued [] = queued"
| "read_history_loop timestamp queued (line # rest) =
     (case basic_history_command line of
        None \<Rightarrow> read_history_loop timestamp queued rest
      | Some command \<Rightarrow>
          if queued = [] \<or> he_command (last queued) \<noteq> command
          then read_history_loop timestamp
                 (deque_append 100 queued
                    \<lparr>he_timestamp = timestamp, he_command = command, he_source = ''history''\<rparr>) rest
          else read_history_loop timestamp queued rest)"

definition read_new_history ::
  "exn + string list \<Rightarrow> string \<Rightarrow> history_event list \<Rightarrow> history_event list" where
  "read_new_history file timestamp queued =
     (case file of
        Inl e \<Rightarrow> queued
      | Inr lines \<Rightarrow>
          read_history_loop timestamp queued
            (if length lines > 50 then last_n 50 lines else lines))"

text \<open>
  \<open>ShellHistoryMonitor._process_history_update\<close> of \<open>comprehensive_monitor.py\<close>;
  \<open>new_commands\<close> is the deque (\<open>maxlen=50\<close>) that \<open>get_new_data\<close> drains.
\<close>

fun process_history_loop :: "string \<Rightarrow> history_event list \<Rightarrow> string list \<Rightarrow> history_event list" where
  "process_history_loop timestamp new_commands [] = new_commands"
| "process_history_loop timestamp new_commands (line # rest) =
     (case history_command line of
        None \<Rightarrow> process_history_loop timestamp new_commands rest
      | Some command \<Rightarrow>
          process_history_loop timestamp
            (deque_append 50 new_commands
               \<lparr>he_timestamp = timestamp, he_command = command, he_source = ''shell_history''\<rparr>) rest)"

definition process_history_update ::
  "exn + string list \<Rightarrow> string \<Rightarrow> history_event list \<Rightarrow> history_event list" where
  "process_history_update file timestamp new_commands =
     (case file of
        Inl e \<Rightarrow> new_commands
      | Inr lines \<Rightarrow> process_history_loop timestamp new_commands (last_n 10 lines))"

section \<open>The process sources\<close>

text \<open>
  One entry of \<open>psutil.process_iter(['pid', 'name', 'cmdline', 'create_time'])\<close>: psutil
  puts \<open>None\<close> for a field it is denied access to.
\<close>

record proc_info =
  pi_pid :: nat
  pi_name :: "string option"
  pi_cmdline :: "string list option"

text \<open>
  The dictionaries that the process monitors queue; a key that an entry does not have is
  \<open>None\<close>.
\<close>

record proc_event =
  pe_pid :: nat
  pe_name :: "string option"
  pe_cmdline :: "string option"
  pe_timestamp :: string
  pe_action :: string

text \<open>\<open>str.lower()\<close> on code points below 256, and \<open>sub in s\<close>.\<close>

definition lower_char :: "char \<Rightarrow> char" where
  "lower_char c =
     (let n = (of_char c :: nat) in
      if (65 \<le> n \<and> n \<le> 90) \<or> (192 \<le> n \<and> n \<le> 222 \<and> n \<noteq> 215)
      then char_of (n + 32) else c)"

definition lower :: "string \<Rightarrow> string" where
  "lower s = map lower_char s"

fun contains :: "string \<Rightarrow> string \<Rightarrow> bool" where
  "contains [] sub = (sub = [])"
| "contains (c # cs) sub = (startswith (c # cs) sub \<or> contains cs sub)"

text \<open>
  \<open>' '.join(proc.info['cmdline']) if proc.info['cmdline'] else proc.info['name']\<close>, as
  both process monitors write it.
\<close>

definition cmdline_or_name :: "proc_info \<Rightarrow> string option" where
  "cmdline_or_name proc =
     (case pi_cmdline proc of
        None \<Rightarrow> pi_name proc
      | Some cl \<Rightarrow> if cl \<noteq> [] then Some (join '' '' cl) else pi_name proc)"

text \<open>\<open>ProcessWatcher._is_interesting_process\<close> of \<open>comprehensive_monitor.py\<close>.\<close>

definition watcher_interesting_names :: "string list" where
  "watcher_interesting_names =
     [''bash'', ''zsh'', ''fish'', ''sh'', ''python'', ''node'', ''npm'', ''pip'',
      ''vim'', ''nano'', ''emacs'', ''code'', ''git'', ''docker'', ''kubectl'',
      ''ssh'', ''rsync'', ''curl'', ''wget'', ''make'', ''gcc'', ''java'']"

definition watcher_is_interesting_process :: "proc_info \<Rightarrow> exn + bool" where
  "watcher_is_interesting_process proc_info =
     (case pi_name proc_info of
        None \<Rightarrow> Inl (AttributeError '''NoneType' object has no attribute 'lower' '')
      | Some n \<Rightarrow>
          (case pi_cmdline proc_info of
             None \<Rightarrow> Inl (TypeError ''can only join an iterable'')
           | Some cl \<Rightarrow>
               (let name = lower n; cmdline = lower (join '' '' cl) in
                Inr (list_ex (\<lambda>interesting. contains name interesting \<or> contains cmdline interesting)
                       watcher_interesting_names))))"

text \<open>
  A Python \<open>set\<close> of pids is modelled as the list of its elements, without repetition,
  in the order in which the set is iterated (which Python leaves open).
\<close>

definition set_add :: "nat list \<Rightarrow> nat \<Rightarrow> nat list" where
  "set_add xs x = (if x \<in> set xs then xs else xs @ [x])"

definition set_minus :: "nat list \<Rightarrow> nat list \<Rightarrow> nat list" where
  "set_minus xs ys = filter (\<lambda>x. x \<notin> set ys) xs"

record process_watcher =
  pw_new_processes :: "proc_event list"
  pw_known_pids :: "nat list"
  pw_process_cache :: "nat \<rightharpoonup> proc_info"

definition watcher_init :: process_watcher where
  "watcher_init = \<lparr>pw_new_processes = [], pw_known_pids = [], pw_process_cache = Map.empty\<rparr>"

text \<open>
  The two dictionaries \<open>proc_entry\<close> of \<open>ProcessWatcher._monitor_processes\<close>. The
  cached \<open>proc.info\<close> always has the key \<open>name\<close>, so \<open>.get('name', 'unknown')\<close> is its
  value.
\<close>

definition watcher_started_entry :: "string \<Rightarrow> proc_info \<Rightarrow> proc_event" where
  "watcher_started_entry timestamp proc =
     \<lparr>pe_pid = pi_pid proc, pe_name = pi_name proc, pe_cmdline = cmdline_or_name proc,
      pe_timestamp = timestamp, pe_action = ''started''\<rparr>"

definition watcher_terminated_entry :: "string \<Rightarrow> nat \<Rightarrow> proc_info \<Rightarrow> proc_event" where
  "watcher_terminated_entry timestamp pid info =
     \<lparr>pe_pid = pid, pe_name = pi_name info, pe_cmdline = None,
      pe_timestamp = timestamp, pe_action = ''terminated''\<rparr>"

text \<open>
  The \<open>for\<close> loop over the processes in \<open>ProcessWatcher._monitor_processes\<close>; it carries
  \<open>current_pids\<close> and the watcher, and stops at an exception.
\<close>

fun watcher_scan ::
  "string \<Rightarrow> proc_info list \<Rightarrow> nat list \<times> process_watcher \<Rightarrow> exn option \<times> nat list \<times> process_watcher" where
  "watcher_scan timestamp [] (current_pids, w) = (None, current_pids, w)"
| "watcher_scan timestamp (proc # rest) (current_pids, w) =
     (let pid = pi_pid proc;
          current_pids' = set_add current_pids pid
      in if pid \<notin> set (pw_known_pids w)
         then (case watcher_is_interesting_process proc of
                 Inl e \<Rightarrow> (Some e, current_pids', w)
               | Inr interesting \<Rightarrow>
                   if interesting
                   then watcher_scan timestamp rest
                          (current_pids',
                           w\<lparr>pw_new_processes := deque_append 30 (pw_new_processes w)
                                (watcher_started_entry timestamp proc),
                             pw_process_cache := (pw_process_cache w)(pid \<mapsto> proc)\<rparr>)
                   else watcher_scan timestamp rest (current_pids', w))
         else watcher_scan timestamp rest (current_pids', w))"

text \<open>The loop over \<open>terminated_pids\<close>.\<close>

fun watcher_terminated :: "string \<Rightarrow> nat list \<Rightarrow> process_watcher \<Rightarrow> process_watcher" where
  "watcher_terminated timestamp [] w = w"
| "watcher_terminated timestamp (pid # rest) w =
     (case pw_process_cache w pid of
        None \<Rightarrow> watcher_terminated timestamp rest w
      | Some info \<Rightarrow>
          watcher_terminated timestamp rest
            (w\<lparr>pw_new_processes := deque_append 30 (pw_new_processes w)
                 (watcher_terminated_entry timestamp pid info),
              pw_process_cache := (pw_process_cache w)(pid := None)\<rparr>))"

text \<open>
  One pass of the \<open>while\<close> loop of \<open>ProcessWatcher._monitor_processes\<close> over the
  snapshot \<open>procs\<close>. The handler \<open>except Exception\<close> ends a pass that raised: what the
  pass had queued stays, and \<open>known_pids\<close> is not updated.
\<close>

definition watcher_cycle :: "string \<Rightarrow> proc_info list \<Rightarrow> process_watcher \<Rightarrow> process_watcher" where
  "watcher_cycle timestamp procs w =
     (case watcher_scan timestamp procs ([], w) of
        (Some e, current_pids, w1) \<Rightarrow> w1
      | (None, current_pids, w1) \<Rightarrow>
          (watcher_terminated timestamp (set_minus (pw_known_pids w1) current_pids) w1)
            \<lparr>pw_known_pids := current_pids\<rparr>)"

text \<open>\<open>ProcessMonitor._is_interesting_process\<close> of \<open>terminal_monitor.py\<close>.\<close>

definition monitor_interesting_names :: "string list" where
  "monitor_interesting_names =
     [''bash'', ''zsh'', ''fish'', ''sh'', ''python'', ''node'', ''vim'', ''nano'', ''emacs'',
      ''git'', ''docker'', ''kubectl'']"

definition monitor_interesting_patterns :: "string list" where
  "monitor_interesting_patterns = [''ssh'', ''rsync'', ''curl'', ''wget'', ''pip'', ''npm'', ''yarn'']"

definition monitor_is_interesting_process :: "string option \<Rightarrow> string option \<Rightarrow> exn + bool" where
  "monitor_is_interesting_process name cmdline =
     (case name of
        None \<Rightarrow> Inl (AttributeError '''NoneType' object has no attribute 'lower' '')
      | Some n \<Rightarrow>
          (case cmdline of
             None \<Rightarrow> Inl (AttributeError '''NoneType' object has no attribute 'lower' '')
           | Some cl \<Rightarrow>
               (let name_lower = lower n; cmdline_lower = lower cl in
                if list_ex (\<lambda>interesting. contains name_lower interesting) monitor_interesting_names
                then Inr True
                else if list_ex (\<lambda>pattern. contains cmdline_lower pattern) monitor_interesting_patterns
                then Inr True
                else Inr False)))"

record process_monitor =
  pm_processes :: "proc_event list"
  pm_known_pids :: "nat list"

definition monitor_init :: process_monitor where
  "monitor_init = \<lparr>pm_processes = [], pm_known_pids = []\<rparr>"

text \<open>
  The two dictionaries \<open>proc_entry\<close> of \<open>ProcessMonitor._monitor_processes\<close>; the one
  for a terminated process has no name and no command line.
\<close>

definition monitor_started_entry :: "string \<Rightarrow> proc_info \<Rightarrow> proc_event" where
  "monitor_started_entry timestamp proc =
     \<lparr>pe_pid = pi_pid proc, pe_name = pi_name proc, pe_cmdline = cmdline_or_name proc,
      pe_timestamp = timestamp, pe_action = ''started''\<rparr>"

definition monitor_terminated_entry :: "string \<Rightarrow> nat \<Rightarrow> proc_event" where
  "monitor_terminated_entry timestamp pid =
     \<lparr>pe_pid = pid, pe_name = None, pe_cmdline = None,
      pe_timestamp = timestamp, pe_action = ''terminated''\<rparr>"

fun monitor_scan ::
  "string \<Rightarrow> proc_info list \<Rightarrow> nat list \<times> process_monitor \<Rightarrow> exn option \<times> nat list \<times> process_monitor" where
  "monitor_scan timestamp [] (current_pids, m) = (None, current_pids, m)"
| "monitor_scan timestamp (proc # rest) (current_pids, m) =
     (let pid = pi_pid proc;
          current_pids' = set_add current_pids pid
      in if pid \<notin> set (pm_known_pids m)
         then (case monitor_is_interesting_process (pi_name proc) (cmdline_or_name proc) of
                 Inl e \<Rightarrow> (Some e, current_pids', m)
               | Inr interesting \<Rightarrow>
                   if interesting
                   then monitor_scan timestamp rest
                          (current_pids',
                           m\<lparr>pm_processes := deque_append 50 (pm_processes m)
                                (monitor_started_entry timestamp proc)\<rparr>)
                   else monitor_scan timestamp rest (current_pids', m))
         else monitor_scan timestamp rest (current_pids', m))"

fun monitor_terminated :: "string \<Rightarrow> nat list \<Rightarrow> process_monitor \<Rightarrow> process_monitor" where
  "monitor_terminated timestamp [] m = m"
| "monitor_terminated timestamp (pid # rest) m =
     monitor_terminated timestamp rest
       (m\<lparr>pm_processes := deque_append 50 (pm_processes m)
            (monitor_terminated_entry timestamp pid)\<rparr>)"

text \<open>One pass of the \<open>while\<close> loop of \<open>ProcessMonitor._monitor_processes\<close>.\<close>

definition monitor_cycle :: "string \<Rightarrow> proc_info list \<Rightarrow> process_monitor \<Rightarrow> process_monitor" where
  "monitor_cycle timestamp procs m =
     (case monitor_scan timestamp procs ([], m) of
        (Some e, current_pids, m1) \<Rightarrow> m1
      | (None, current_pids, m1) \<Rightarrow>
          (monitor_terminated timestamp (set_minus (pm_known_pids m1) current_pids) m1)
            \<lparr>pm_known_pids := current_pids\<rparr>)"

section \<open>Facts about strings\<close>

lemma is_space_simps [simp]:
  "is_space CHR '' ''" "\<not> is_space CHR ''#''" "\<not> is_space CHR '':''" "\<not> is_space CHR '';''"
  by (simp_all add: is_space_def)

lemma strip_Nil [simp]: "strip [] = []"
  by (simp add: strip_def)

lemma strip_hd: "strip s \<noteq> [] \<Longrightarrow> \<not> is_space (hd (strip s))"
proof -
  assume ne: "strip s \<noteq> []"
  let ?d = "dropWhile is_space s"
  have d: "?d \<noteq> []"
  proof
    assume "?d = []"
    then have "strip s = []" by (simp add: strip_def del: dropWhile_eq_Nil_conv)
    with ne show False by simp
  qed
  then have h: "\<not> is_space (hd ?d)" by (simp add: hd_dropWhile)
  have "rev ?d \<noteq> []" using d by simp
  have "takeWhile is_space (rev ?d) @ dropWhile is_space (rev ?d) = rev ?d" by simp
  then have "?d = rev (dropWhile is_space (rev ?d)) @ rev (takeWhile is_space (rev ?d))"
    by (metis rev_append rev_rev_ident)
  then have "?d = strip s @ rev (takeWhile is_space (rev ?d))" by (simp add: strip_def)
  then have "hd ?d = hd (strip s)" using ne by (metis hd_append2)
  with h show ?thesis by simp
qed

lemma strip_last: "strip s \<noteq> [] \<Longrightarrow> \<not> is_space (last (strip s))"
proof -
  assume ne: "strip s \<noteq> []"
  let ?r = "dropWhile is_space (rev (dropWhile is_space s))"
  have "?r \<noteq> []" using ne by (simp add: strip_def)
  then have "\<not> is_space (hd ?r)" by (simp add: hd_dropWhile)
  moreover have "last (strip s) = hd ?r" using \<open>?r \<noteq> []\<close> by (simp add: strip_def last_rev)
  ultimately show ?thesis by simp
qed

lemma strip_id: "s \<noteq> [] \<Longrightarrow> \<not> is_space (hd s) \<Longrightarrow> \<not> is_space (last s) \<Longrightarrow> strip s = s"
proof -
  assume a: "s \<noteq> []" "\<not> is_space (hd s)" "\<not> is_space (last s)"
  have 1: "dropWhile is_space s = s" using a by (simp add: dropWhile_eq_self_iff)
  have "hd (rev s) = last s" using a by (simp add: hd_rev)
  then have 2: "dropWhile is_space (rev s) = rev s" using a by (simp add: dropWhile_eq_self_iff)
  show ?thesis by (simp add: strip_def 1 2)
qed

lemma strip_strip [simp]: "strip (strip s) = strip s"
proof (cases "strip s = []")
  case True
  then show ?thesis by simp
next
  case False
  then show ?thesis by (intro strip_id strip_hd strip_last)
qed

lemma split1_first:
  assumes "c \<notin> set pre"
  shows "split1 c (pre @ c # post) = [pre, post]"
proof -
  have p: "\<And>x. x \<in> set pre \<Longrightarrow> x \<noteq> c" using assms by auto
  have "takeWhile (\<lambda>x. x \<noteq> c) (pre @ c # post) = pre"
    using p by (simp add: takeWhile_append2)
  moreover have "dropWhile (\<lambda>x. x \<noteq> c) (pre @ c # post) = c # post"
    using p by (simp add: dropWhile_append2)
  ultimately show ?thesis by (simp add: split1_def)
qed

lemma split1_none: "c \<notin> set s \<Longrightarrow> split1 c s = [s]"
  by (simp add: split1_def)

section \<open>History-line parsing\<close>

lemma parse_zsh:
  assumes "startswith l '': ''" "l = pre @ CHR '';'' # post" "CHR '';'' \<notin> set pre"
  shows "parse_history_line l = strip post"
  using assms(1) by (simp add: parse_history_line_def assms(2) split1_first [OF assms(3)])

lemma parse_plain:
  assumes "\<not> (startswith l '': '' \<and> CHR '';'' \<in> set l)"
  shows "parse_history_line l = strip l"
  using assms by (auto simp: parse_history_line_def split1_def)

lemma basic_history_command_eq: "basic_history_command raw = history_command raw"
  by (auto simp: basic_history_command_def history_command_def parse_history_line_def Let_def split1_def)

text \<open>
  Claim C2, as amended. The three example lines of the spec parse as it says: the zsh line
  \<open>: 1690000000:0;ls -la\<close> and the plain line \<open>ls -la\<close> both give the command
  \<open>ls -la\<close>, and the comment line \<open># note\<close> gives no event. The inline loop of
  \<open>activity_monitor.py\<close> and \<open>_parse_history_line\<close> agree on every line. In general
  a raw line is first stripped of surrounding whitespace; an empty or \<open>#\<close> line gives no
  event; a line that starts with \<open>: \<close> and has a \<open>;\<close> gives the text after the first
  \<open>;\<close> with surrounding whitespace stripped, and no event at all when that is empty;
  every other line is the command as it stands after stripping.
\<close>

theorem history_line_parsing:
  "history_command '': 1690000000:0;ls -la'' = Some ''ls -la'' \<and>
   history_command ''ls -la'' = Some ''ls -la'' \<and>
   history_command ''# note'' = None \<and>
   basic_history_command raw = history_command raw \<and>
   (strip raw = [] \<or> startswith (strip raw) ''#'' \<longrightarrow> history_command raw = None) \<and>
   (strip raw \<noteq> [] \<and> \<not> startswith (strip raw) ''#'' \<and> startswith (strip raw) '': '' \<and>
    strip raw = pre @ CHR '';'' # post \<and> CHR '';'' \<notin> set pre \<longrightarrow>
      history_command raw = (if strip post = [] then None else Some (strip post))) \<and>
   (strip raw \<noteq> [] \<and> \<not> startswith (strip raw) ''#'' \<and>
    \<not> (startswith (strip raw) '': '' \<and> CHR '';'' \<in> set (strip raw)) \<longrightarrow>
      history_command raw = Some (strip raw))"
proof -
  have e1: "history_command '': 1690000000:0;ls -la'' = Some ''ls -la''"
    by (simp add: history_command_def parse_history_line_def strip_def startswith_def split1_def is_space_def)
  have e2: "history_command ''ls -la'' = Some ''ls -la''"
    by (simp add: history_command_def parse_history_line_def strip_def startswith_def split1_def is_space_def)
  have e3: "history_command ''# note'' = None"
    by (simp add: history_command_def parse_history_line_def strip_def startswith_def split1_def is_space_def)
  have g1: "strip raw = [] \<or> startswith (strip raw) ''#'' \<longrightarrow> history_command raw = None"
    by (auto simp: history_command_def)
  have g2: "strip raw \<noteq> [] \<and> \<not> startswith (strip raw) ''#'' \<and> startswith (strip raw) '': '' \<and>
    strip raw = pre @ CHR '';'' # post \<and> CHR '';'' \<notin> set pre \<longrightarrow>
      history_command raw = (if strip post = [] then None else Some (strip post))"
    using parse_zsh [of "strip raw" pre post] by (auto simp: history_command_def)
  have g3: "strip raw \<noteq> [] \<and> \<not> startswith (strip raw) ''#'' \<and>
    \<not> (startswith (strip raw) '': '' \<and> CHR '';'' \<in> set (strip raw)) \<longrightarrow>
      history_command raw = Some (strip raw)"
    using parse_plain [of "strip raw"] by (auto simp: history_command_def)
  show ?thesis using e1 e2 e3 g1 g2 g3 basic_history_command_eq by blast
qed

theorem history_line_parsing_witness:
  "history_command '': 1690000000:0; ls -la  '' = Some ''ls -la'' \<and>
   history_command '': 1690000000:0;'' = None \<and>
   history_command ''  git status  '' = Some ''git status'' \<and>
   history_command '': no semicolon'' = Some '': no semicolon'' \<and>
   history_command ''   '' = None"
proof -
  have s1: "strip '': 1690000000:0; ls -la  '' = '': 1690000000:0'' @ CHR '';'' # '' ls -la''"
    by (simp add: strip_def is_space_def)
  have s2: "strip '': 1690000000:0;'' = '': 1690000000:0'' @ CHR '';'' # ''''"
    by (simp add: strip_def is_space_def)
  have s3: "strip ''  git status  '' = ''git status''"
    by (simp add: strip_def is_space_def)
  have s4: "strip '': no semicolon'' = '': no semicolon''"
    by (simp add: strip_def is_space_def)
  have s5: "strip ''   '' = []"
    by (simp add: strip_def is_space_def)
  have p1: "strip '' ls -la'' = ''ls -la''" by (simp add: strip_def is_space_def)
  have w1: "history_command '': 1690000000:0; ls -la  '' = Some ''ls -la''"
    using history_line_parsing [of "'': 1690000000:0; ls -la  ''" "'': 1690000000:0''" "'' ls -la''"]
    by (simp add: s1 p1 startswith_def)
  have w2: "history_command '': 1690000000:0;'' = None"
    using history_line_parsing [of "'': 1690000000:0;''" "'': 1690000000:0''" "''''"]
    by (simp add: s2 startswith_def)
  have w3: "history_command ''  git status  '' = Some ''git status''"
    using history_line_parsing [of "''  git status  ''" "[]" "[]"]
    by (simp add: s3 startswith_def)
  have w4: "history_command '': no semicolon'' = Some '': no semicolon''"
    using history_line_parsing [of "'': no semicolon''" "[]" "[]"]
    by (simp add: s4 startswith_def)
  have w5: "history_command ''   '' = None"
    using history_line_parsing [of "''   ''" "[]" "[]"]
    by (simp add: s5)
  show ?thesis using w1 w2 w3 w4 w5 by simp
qed

text \<open>
  The claim as the spec states it fails: with a blank after the \<open>;\<close> the command is
  not the text after the first \<open>;\<close>, because the source strips it.
\<close>

theorem history_line_parsing_counterexample:
  "history_command '': 1690000000:0; ls -la'' = Some ''ls -la'' \<and>
   after_first_semicolon '': 1690000000:0; ls -la'' = '' ls -la'' \<and>
   history_command '': 1690000000:0; ls -la'' \<noteq> Some (after_first_semicolon '': 1690000000:0; ls -la'')"
  by (simp add: history_command_def parse_history_line_def strip_def startswith_def split1_def
      is_space_def after_first_semicolon_def)

section \<open>The context buffer\<close>

lemma split_from_ne [simp]: "split_from c cur s \<noteq> []"
  by (induction s arbitrary: cur) auto

lemma split_on_ne [simp]: "split_on c s \<noteq> []"
  by (simp add: split_on_def)

lemma join_Cons_ne: "ls \<noteq> [] \<Longrightarrow> join sep (l # ls) = l @ sep @ join sep ls"
  by (cases ls) auto

lemma join_split_from: "join [c] (split_from c cur s) = rev cur @ s"
  by (induction s arbitrary: cur) (auto simp: join_Cons_ne)

lemma join_split_on: "join [c] (split_on c s) = s"
  by (simp add: split_on_def join_split_from)

lemma join_drop_suffix: "suffix (join sep (drop k ls)) (join sep ls)"
proof (induction ls arbitrary: k)
  case Nil
  then show ?case by simp
next
  case (Cons l ls)
  show ?case
  proof (cases k)
    case 0
    then show ?thesis by simp
  next
    case (Suc j)
    have "suffix (join sep (drop j ls)) (join sep ls)" by (rule Cons.IH)
    moreover have "suffix (join sep ls) (join sep (l # ls))"
      by (cases ls) (auto simp: suffix_def)
    ultimately show ?thesis using Suc by (auto intro: suffix_order.trans)
  qed
qed

lemma trim_lines_result:
  assumes "0 \<le> m"
  shows "\<exists>k\<le>length ls. trim_lines m ls = Inr (drop k ls) \<and>
           5 * int (length (join nl (drop k ls))) \<le> 4 * m \<and>
           (\<forall>j<k. 5 * int (length (join nl (drop j ls))) > 4 * m)"
proof (induction ls)
  case Nil
  then show ?case using assms by simp
next
  case (Cons l ls)
  show ?case
  proof (cases "5 * int (length (join nl (l # ls))) > 4 * m")
    case False
    then have "trim_lines m (l # ls) = Inr (drop 0 (l # ls)) \<and>
           5 * int (length (join nl (drop 0 (l # ls)))) \<le> 4 * m \<and>
           (\<forall>j<0::nat. 5 * int (length (join nl (drop j (l # ls)))) > 4 * m)" by simp
    then show ?thesis by blast
  next
    case True
    from Cons obtain k where k: "k \<le> length ls" "trim_lines m ls = Inr (drop k ls)"
      "5 * int (length (join nl (drop k ls))) \<le> 4 * m"
      "\<forall>j<k. 5 * int (length (join nl (drop j ls))) > 4 * m" by blast
    have "\<forall>j<Suc k. 5 * int (length (join nl (drop j (l # ls)))) > 4 * m"
    proof (intro allI impI)
      fix j assume "j < Suc k"
      then show "5 * int (length (join nl (drop j (l # ls)))) > 4 * m"
        using True k(4) by (cases j) auto
    qed
    then have "Suc k \<le> length (l # ls) \<and> trim_lines m (l # ls) = Inr (drop (Suc k) (l # ls)) \<and>
           5 * int (length (join nl (drop (Suc k) (l # ls)))) \<le> 4 * m \<and>
           (\<forall>j<Suc k. 5 * int (length (join nl (drop j (l # ls)))) > 4 * m)"
      using True k by simp
    then show ?thesis by blast
  qed
qed

lemma update_context_buffer_result:
  assumes "0 \<le> max_context_size s"
  shows "\<exists>k. update_context_buffer text s =
               (None, s\<lparr>context_buffer := join nl (drop k (split_on CHR 0x0A (context_buffer s @ text @ nl)))\<rparr>) \<and>
             (\<forall>j<k. 5 * int (length (join nl (drop j (split_on CHR 0x0A (context_buffer s @ text @ nl)))))
                        > 4 * max_context_size s) \<and>
             (if int (length (context_buffer s @ text @ nl)) > max_context_size s
              then 5 * int (length (join nl (drop k (split_on CHR 0x0A (context_buffer s @ text @ nl)))))
                     \<le> 4 * max_context_size s
              else k = 0)"
proof (cases "int (length (context_buffer s @ text @ nl)) > max_context_size s")
  case False
  then have "update_context_buffer text s =
               (None, s\<lparr>context_buffer := join nl (drop 0 (split_on CHR 0x0A (context_buffer s @ text @ nl)))\<rparr>)"
    by (simp add: update_context_buffer_def Let_def join_split_on)
  then show ?thesis using False by auto
next
  case True
  let ?ls = "split_on CHR 0x0A (context_buffer s @ text @ nl)"
  from trim_lines_result [OF assms, of ?ls] obtain k where k: "trim_lines (max_context_size s) ?ls = Inr (drop k ?ls)"
      "5 * int (length (join nl (drop k ?ls))) \<le> 4 * max_context_size s"
      "\<forall>j<k. 5 * int (length (join nl (drop j ?ls))) > 4 * max_context_size s" by blast
  have "update_context_buffer text s = (None, s\<lparr>context_buffer := join nl (drop k ?ls)\<rparr>)"
    using True k(1) by (simp add: update_context_buffer_def Let_def)
  then show ?thesis using True k(2,3) by auto
qed

lemma update_context_buffer_bounded:
  assumes "0 \<le> max_context_size s"
  shows "\<exists>s'. update_context_buffer text s = (None, s') \<and>
           int (length (context_buffer s')) \<le> max_context_size s \<and>
           s' = s\<lparr>context_buffer := context_buffer s'\<rparr>"
proof -
  let ?ls = "split_on CHR 0x0A (context_buffer s @ text @ nl)"
  from update_context_buffer_result [OF assms, of "text"] obtain k where
    k: "update_context_buffer text s = (None, s\<lparr>context_buffer := join nl (drop k ?ls)\<rparr>)"
    "if int (length (context_buffer s @ text @ nl)) > max_context_size s
              then 5 * int (length (join nl (drop k ?ls))) \<le> 4 * max_context_size s
              else k = 0" by blast
  have "int (length (join nl (drop k ?ls))) \<le> max_context_size s"
  proof (cases "int (length (context_buffer s @ text @ nl)) > max_context_size s")
    case True
    then show ?thesis using k(2) assms by simp
  next
    case False
    then have "k = 0" using k(2) by simp
    then show ?thesis using False by (simp add: join_split_on)
  qed
  then show ?thesis using k(1) by simp
qed

lemma update_context_buffer_frame:
  "update_context_buffer text s = (e, s') \<Longrightarrow>
     s' = s\<lparr>context_buffer := context_buffer s'\<rparr> \<and> suffix (context_buffer s') (context_buffer s @ text @ nl)"
proof -
  assume a: "update_context_buffer text s = (e, s')"
  let ?b = "context_buffer s @ text @ nl"
  have tr: "\<And>m ls r. trim_lines m ls = Inr r \<Longrightarrow> \<exists>k. r = drop k ls"
  proof -
    fix m ls r show "trim_lines m ls = Inr r \<Longrightarrow> \<exists>k. r = drop k ls"
    proof (induction ls)
      case Nil
      then show ?case by (auto split: if_splits)
    next
      case (Cons l ls)
      show ?case
      proof (cases "5 * int (length (join nl (l # ls))) > 4 * m")
        case True
        then obtain k where "r = drop k ls" using Cons by auto
        then have "r = drop (Suc k) (l # ls)" by simp
        then show ?thesis by blast
      next
        case False
        then have "r = drop 0 (l # ls)" using Cons.prems by simp
        then show ?thesis by blast
      qed
    qed
  qed
  show ?thesis
  proof (cases "int (length ?b) > max_context_size s")
    case False
    then show ?thesis using a by (auto simp: update_context_buffer_def Let_def)
  next
    case True
    show ?thesis
    proof (cases "trim_lines (max_context_size s) (split_on CHR 0x0A ?b)")
      case (Inl x)
      then show ?thesis using a True by (auto simp: update_context_buffer_def Let_def)
    next
      case (Inr r)
      then obtain k where "r = drop k (split_on CHR 0x0A ?b)" using tr by blast
      then have "suffix (join nl r) ?b"
        using join_drop_suffix [of nl k "split_on CHR 0x0A ?b"] by (simp add: join_split_on)
      then show ?thesis using a True Inr by (auto simp: update_context_buffer_def Let_def)
    qed
  qed
qed

section \<open>The appends of the front end\<close>

lemma deque_append_last_n: "length d \<le> n \<Longrightarrow> deque_append n d x = last_n n (d @ [x])"
proof (cases "length d = n")
  case True
  then show ?thesis by (cases d) (auto simp: deque_append_def last_n_def)
next
  case False
  assume "length d \<le> n"
  with False have "length d < n" by simp
  then show ?thesis by (auto simp: deque_append_def last_n_def)
qed

lemma length_deque_append:
  "length d \<le> n \<Longrightarrow> length (deque_append n d x) = min (Suc (length d)) n"
  by (auto simp: deque_append_def)

lemma log_command_effect:
  "log_command now command ts s = (e, s') \<Longrightarrow>
     s' = s\<lparr>command_history := deque_append (max_history_items s) (command_history s)
              \<lparr>ce_timestamp = (case ts of None \<Rightarrow> now | Some t \<Rightarrow> t), ce_command = command,
               ce_directory = current_directory s, ce_duration = None\<rparr>,
           session_data := (session_data s)\<lparr>commands := commands (session_data s) @
              [\<lparr>ce_timestamp = (case ts of None \<Rightarrow> now | Some t \<Rightarrow> t), ce_command = command,
               ce_directory = current_directory s, ce_duration = None\<rparr>]\<rparr>,
           context_buffer := context_buffer s'\<rparr> \<and>
     suffix (context_buffer s')
       (context_buffer s @ command_line (case ts of None \<Rightarrow> now | Some t \<Rightarrow> t) command @ nl)"
  unfolding log_command_def Let_def
  by (drule update_context_buffer_frame) (auto)

lemma strftime_hms_0 [simp]: "strftime_hms 0 = ''00:00:00''"
  by (simp add: strftime_hms_def pad2_def digit_def)

lemma log_output_effect:
  "log_output now output command ts s = (e, s') \<Longrightarrow>
     s' = s\<lparr>output_history := deque_append (max_history_items s) (output_history s)
              \<lparr>oe_timestamp = (case ts of None \<Rightarrow> now | Some t \<Rightarrow> t), oe_command = command,
               oe_output = output, oe_directory = current_directory s\<rparr>,
           session_data := (session_data s)\<lparr>outputs := outputs (session_data s) @
              [\<lparr>oe_timestamp = (case ts of None \<Rightarrow> now | Some t \<Rightarrow> t), oe_command = command,
               oe_output = output, oe_directory = current_directory s\<rparr>]\<rparr>,
           context_buffer := context_buffer s'\<rparr>"
  unfolding log_output_def Let_def
  by (cases "strip output = []") (auto dest!: update_context_buffer_frame)

lemma log_directory_change_effect:
  "log_directory_change now d ts s = (e, s') \<Longrightarrow>
     s' = s\<lparr>current_directory := d,
           session_data := (session_data s)\<lparr>directory_changes := directory_changes (session_data s) @
              [\<lparr>dc_timestamp = (case ts of None \<Rightarrow> now | Some t \<Rightarrow> t), dc_from = current_directory s,
                dc_to = d\<rparr>]\<rparr>,
           context_buffer := context_buffer s'\<rparr>"
  unfolding log_directory_change_def Let_def
  by (auto dest!: update_context_buffer_frame)

lemma log_file_operation_effect:
  "log_file_operation now operation filepath ts s = (e, s') \<Longrightarrow>
     s' = s\<lparr>session_data := (session_data s)\<lparr>file_operations := file_operations (session_data s) @
              [\<lparr>fo_timestamp = (case ts of None \<Rightarrow> now | Some t \<Rightarrow> t), fo_operation = operation,
                fo_filepath = filepath, fo_directory = current_directory s\<rparr>]\<rparr>,
           context_buffer := context_buffer s'\<rparr>"
  unfolding log_file_operation_def Let_def
  by (auto dest!: update_context_buffer_frame)

lemma update_context_buffer_safe:
  assumes "0 \<le> max_context_size s"
  shows "fst (update_context_buffer text s) = None"
  using update_context_buffer_bounded [OF assms, of "text"] by auto

lemma update_context_buffer_length:
  assumes "0 \<le> max_context_size s" "max_context_size s \<le> m"
  shows "int (length (context_buffer (snd (update_context_buffer text s)))) \<le> m"
  using update_context_buffer_bounded [OF assms(1), of "text"] assms(2) by auto

lemma append_step_safe:
  assumes "0 \<le> max_context_size s" "int (length (context_buffer s)) \<le> max_context_size s"
  shows "fst (append_step c s) = None \<and>
         int (length (context_buffer (snd (append_step c s)))) \<le> max_context_size s"
proof (cases c)
  case (LogCommand now command ts)
  then show ?thesis using assms(1)
    by (simp add: log_command_def Let_def update_context_buffer_safe update_context_buffer_length)
next
  case (LogOutput now out command ts)
  then show ?thesis using assms
    by (simp add: log_output_def Let_def update_context_buffer_safe update_context_buffer_length)
next
  case (LogDirectoryChange now d ts)
  then show ?thesis using assms(1)
    by (simp add: log_directory_change_def Let_def update_context_buffer_safe update_context_buffer_length)
next
  case (LogFileOperation now operation filepath ts)
  then show ?thesis using assms(1)
    by (simp add: log_file_operation_def Let_def update_context_buffer_safe update_context_buffer_length)
qed

text \<open>What one call does to the two histories and to the configuration.\<close>

lemma append_step_histories:
  assumes "append_step c s = (e, s')"
  shows "max_context_size s' = max_context_size s \<and> max_history_items s' = max_history_items s \<and>
     command_history s' =
       (case c of LogCommand now command ts \<Rightarrow>
            deque_append (max_history_items s) (command_history s)
              \<lparr>ce_timestamp = (case ts of None \<Rightarrow> now | Some t \<Rightarrow> t), ce_command = command,
               ce_directory = current_directory s, ce_duration = None\<rparr>
        | _ \<Rightarrow> command_history s) \<and>
     output_history s' =
       (case c of LogOutput now output command ts \<Rightarrow>
            deque_append (max_history_items s) (output_history s)
              \<lparr>oe_timestamp = (case ts of None \<Rightarrow> now | Some t \<Rightarrow> t), oe_command = command,
               oe_output = output, oe_directory = current_directory s\<rparr>
        | _ \<Rightarrow> output_history s) \<and>
     length (commands (session_data s')) =
       length (commands (session_data s)) + (if is_log_command c then 1 else 0) \<and>
     length (outputs (session_data s')) =
       length (outputs (session_data s)) + (if is_log_output c then 1 else 0)"
proof (cases c)
  case (LogCommand now command ts)
  with assms have "log_command now command ts s = (e, s')" by simp
  from log_command_effect [OF this] have eq: "s' = s\<lparr>command_history := deque_append (max_history_items s) (command_history s)
              \<lparr>ce_timestamp = (case ts of None \<Rightarrow> now | Some t \<Rightarrow> t), ce_command = command,
               ce_directory = current_directory s, ce_duration = None\<rparr>,
           session_data := (session_data s)\<lparr>commands := commands (session_data s) @
              [\<lparr>ce_timestamp = (case ts of None \<Rightarrow> now | Some t \<Rightarrow> t), ce_command = command,
               ce_directory = current_directory s, ce_duration = None\<rparr>]\<rparr>,
           context_buffer := context_buffer s'\<rparr>" by simp
  show ?thesis by (subst (1 2 3 4 5 6) eq) (simp add: LogCommand)
next
  case (LogOutput now out command ts)
  with assms have "log_output now out command ts s = (e, s')" by simp
  from log_output_effect [OF this] show ?thesis
    by (elim ssubst) (simp add: LogOutput)
next
  case (LogDirectoryChange now d ts)
  with assms have "log_directory_change now d ts s = (e, s')" by simp
  from log_directory_change_effect [OF this] show ?thesis
    by (elim ssubst) (simp add: LogDirectoryChange)
next
  case (LogFileOperation now operation filepath ts)
  with assms have "log_file_operation now operation filepath ts s = (e, s')" by simp
  from log_file_operation_effect [OF this] show ?thesis
    by (elim ssubst) (simp add: LogFileOperation)
qed

lemma append_step_bounded:
  assumes "0 \<le> max_context_size s" "bounded s"
  shows "\<exists>s'. append_step c s = (None, s') \<and> bounded s' \<and>
     max_context_size s' = max_context_size s \<and> max_history_items s' = max_history_items s \<and>
     length (command_history s') =
       min (length (command_history s) + (if is_log_command c then 1 else 0)) (max_history_items s) \<and>
     length (output_history s') =
       min (length (output_history s) + (if is_log_output c then 1 else 0)) (max_history_items s) \<and>
     length (commands (session_data s')) =
       length (commands (session_data s)) + (if is_log_command c then 1 else 0) \<and>
     length (outputs (session_data s')) =
       length (outputs (session_data s)) + (if is_log_output c then 1 else 0)"
proof -
  obtain e s' where r: "append_step c s = (e, s')" by (cases "append_step c s")
  have b: "length (command_history s) \<le> max_history_items s"
    "length (output_history s) \<le> max_history_items s"
    "int (length (context_buffer s)) \<le> max_context_size s"
    using assms(2) by (simp_all add: bounded_def)
  from append_step_safe [OF assms(1) b(3), of c] r
  have e: "e = None" and l: "int (length (context_buffer s')) \<le> max_context_size s" by simp_all
  note h = append_step_histories [OF r]
  have ch: "length (command_history s') =
       min (length (command_history s) + (if is_log_command c then 1 else 0)) (max_history_items s)"
    using h b(1) by (cases c) (simp_all add: length_deque_append)
  have oh: "length (output_history s') =
       min (length (output_history s) + (if is_log_output c then 1 else 0)) (max_history_items s)"
    using h b(2) by (cases c) (simp_all add: length_deque_append)
  have "bounded s'" using ch oh l h by (simp add: bounded_def)
  then show ?thesis using r e ch oh h by simp
qed

lemma appends_bounded:
  assumes "0 \<le> max_context_size s" "bounded s"
  shows "\<exists>s'. appends calls s = (None, s') \<and> bounded s' \<and>
     max_context_size s' = max_context_size s \<and> max_history_items s' = max_history_items s \<and>
     length (command_history s') =
       min (length (command_history s) + length (filter is_log_command calls)) (max_history_items s) \<and>
     length (output_history s') =
       min (length (output_history s) + length (filter is_log_output calls)) (max_history_items s) \<and>
     length (commands (session_data s')) =
       length (commands (session_data s)) + length (filter is_log_command calls) \<and>
     length (outputs (session_data s')) =
       length (outputs (session_data s)) + length (filter is_log_output calls)"
  using assms
proof (induction calls arbitrary: s)
  case Nil
  then show ?case by (simp add: bounded_def)
next
  case (Cons c calls)
  from append_step_bounded [OF Cons.prems, of c] obtain s1 where
    s1: "append_step c s = (None, s1)" "bounded s1"
     "max_context_size s1 = max_context_size s" "max_history_items s1 = max_history_items s"
     "length (command_history s1) =
       min (length (command_history s) + (if is_log_command c then 1 else 0)) (max_history_items s)"
     "length (output_history s1) =
       min (length (output_history s) + (if is_log_output c then 1 else 0)) (max_history_items s)"
     "length (commands (session_data s1)) =
       length (commands (session_data s)) + (if is_log_command c then 1 else 0)"
     "length (outputs (session_data s1)) =
       length (outputs (session_data s)) + (if is_log_output c then 1 else 0)"
    by blast
  have "0 \<le> max_context_size s1" using s1(3) Cons.prems(1) by simp
  from Cons.IH [OF this s1(2)] obtain s' where
    s': "appends calls s1 = (None, s')" "bounded s'"
     "max_context_size s' = max_context_size s1" "max_history_items s' = max_history_items s1"
     "length (command_history s') =
       min (length (command_history s1) + length (filter is_log_command calls)) (max_history_items s1)"
     "length (output_history s') =
       min (length (output_history s1) + length (filter is_log_output calls)) (max_history_items s1)"
     "length (commands (session_data s')) =
       length (commands (session_data s1)) + length (filter is_log_command calls)"
     "length (outputs (session_data s')) =
       length (outputs (session_data s1)) + length (filter is_log_output calls)"
    by blast
  have r: "appends (c # calls) s = (None, s')" using s1(1) s'(1) by simp
  have m: "max_context_size s' = max_context_size s" "max_history_items s' = max_history_items s"
    using s1(3,4) s'(3,4) by simp_all
  have ch: "length (command_history s') =
       min (length (command_history s) + length (filter is_log_command (c # calls))) (max_history_items s)"
    using s'(5) s1(4,5) by (cases "is_log_command c") simp_all
  have oh: "length (output_history s') =
       min (length (output_history s) + length (filter is_log_output (c # calls))) (max_history_items s)"
    using s'(6) s1(4,6) by (cases "is_log_output c") simp_all
  have cs: "length (commands (session_data s')) =
       length (commands (session_data s)) + length (filter is_log_command (c # calls))"
    using s'(7) s1(7) by simp
  have os: "length (outputs (session_data s')) =
       length (outputs (session_data s)) + length (filter is_log_output (c # calls))"
    using s'(8) s1(8) by simp
  show ?case using r s'(2) m ch oh cs os by blast
qed

lemma bounded_init: "0 \<le> mcs \<Longrightarrow> bounded (init_monitor mcs mhi cwd now cm started)"
  by (simp add: bounded_def init_monitor_def)

section \<open>The session summary after a sequence of appends\<close>

lemma split_ws_from_Nil:
  "split_ws_from cur s = [] \<longleftrightarrow> cur = [] \<and> (\<forall>c\<in>set s. is_space c)"
  by (induction s arbitrary: cur) auto

lemma command_basename_ok:
  "command = [] \<or> (\<exists>c\<in>set command. \<not> is_space c) \<Longrightarrow> \<exists>w. command_basename command = Inr w"
  by (cases "split_ws command") (auto simp: command_basename_def split_ws_def split_ws_from_Nil)

lemma count_commands_ok:
  "\<forall>x\<in>set h. ce_command x = [] \<or> (\<exists>c\<in>set (ce_command x). \<not> is_space c) \<Longrightarrow>
     \<exists>r. count_commands acc h = Inr r"
proof (induction h arbitrary: acc)
  case Nil
  then show ?case by simp
next
  case (Cons x h)
  then obtain w where "command_basename (ce_command x) = Inr w"
    using command_basename_ok [of "ce_command x"] by auto
  then show ?case using Cons by simp
qed

lemma get_session_summary_ok:
  assumes "\<forall>x\<in>set (command_history s). ce_command x = [] \<or> (\<exists>c\<in>set (ce_command x). \<not> is_space c)"
  shows "\<exists>sm. get_session_summary now s = Inr sm \<and>
           total_commands sm = length (command_history s) \<and>
           total_outputs sm = length (output_history s)"
proof -
  from count_commands_ok [OF assms, of "[]"] obtain r where "count_commands [] (command_history s) = Inr r"
    by blast
  then show ?thesis by (simp add: get_session_summary_def get_most_used_commands_def)
qed

lemma set_deque_append: "set (deque_append n d x) \<subseteq> insert x (set d)"
  by (cases d) (auto simp: deque_append_def)

lemma append_step_commands:
  assumes "append_step c s = (e, s')"
    and "\<forall>x\<in>set (command_history s). P (ce_command x)"
    and "\<forall>t command ts. c = LogCommand t command ts \<longrightarrow> P command"
  shows "\<forall>x\<in>set (command_history s'). P (ce_command x)"
proof (cases c)
  case (LogCommand t command ts)
  let ?entry = "\<lparr>ce_timestamp = (case ts of None \<Rightarrow> t | Some t \<Rightarrow> t), ce_command = command,
               ce_directory = current_directory s, ce_duration = None\<rparr>"
  from append_step_histories [OF assms(1)] have
    h: "command_history s' = deque_append (max_history_items s) (command_history s) ?entry"
    by (simp add: LogCommand)
  have p: "P command" using assms(3) LogCommand by blast
  show ?thesis
  proof
    fix x assume "x \<in> set (command_history s')"
    then have "x \<in> insert ?entry (set (command_history s))"
      using h set_deque_append [of "max_history_items s" "command_history s" ?entry] by auto
    then have "x = ?entry \<or> x \<in> set (command_history s)" by simp
    then show "P (ce_command x)"
    proof
      assume "x = ?entry"
      then show ?thesis using p by simp
    next
      assume "x \<in> set (command_history s)"
      then show ?thesis using assms(2) by blast
    qed
  qed
next
  case (LogOutput t out command ts)
  then show ?thesis using append_step_histories [OF assms(1)] assms(2) by simp
next
  case (LogDirectoryChange t d ts)
  then show ?thesis using append_step_histories [OF assms(1)] assms(2) by simp
next
  case (LogFileOperation t operation filepath ts)
  then show ?thesis using append_step_histories [OF assms(1)] assms(2) by simp
qed

lemma appends_commands:
  "appends calls s = (e, s') \<Longrightarrow>
   \<forall>x\<in>set (command_history s). P (ce_command x) \<Longrightarrow>
   \<forall>t command ts. LogCommand t command ts \<in> set calls \<longrightarrow> P command \<Longrightarrow>
   \<forall>x\<in>set (command_history s'). P (ce_command x)"
proof (induction calls arbitrary: s)
  case Nil
  then show ?case by simp
next
  case (Cons c calls)
  obtain e1 s1 where s1: "append_step c s = (e1, s1)" by (cases "append_step c s")
  have c: "\<forall>t command ts. c = LogCommand t command ts \<longrightarrow> P command"
    using Cons.prems(3) by simp
  note a = append_step_commands [OF s1 Cons.prems(2) c]
  show ?case
  proof (cases e1)
    case (Some x)
    then have "s' = s1" using Cons.prems(1) s1 by simp
    then show ?thesis using a by simp
  next
    case None
    then have r: "appends calls s1 = (e, s')" using Cons.prems(1) s1 by simp
    have "\<forall>t command ts. LogCommand t command ts \<in> set calls \<longrightarrow> P command"
      using Cons.prems(3) by simp
    from Cons.IH [OF r a this] show ?thesis .
  qed
qed

lemma command_history_log_command:
  "command_history (snd (log_command t command ts s)) =
     deque_append (max_history_items s) (command_history s)
       \<lparr>ce_timestamp = (case ts of None \<Rightarrow> t | Some t' \<Rightarrow> t'), ce_command = command,
        ce_directory = current_directory s, ce_duration = None\<rparr>"
proof -
  obtain e s' where r: "append_step (LogCommand t command ts) s = (e, s')"
    by (cases "append_step (LogCommand t command ts) s")
  from append_step_histories [OF r] r show ?thesis by simp
qed

section \<open>Facts about the rendered context\<close>

lemma length_last_n: "length (last_n n xs) \<le> n"
  by (simp add: last_n_def)

lemma set_last_n: "set (last_n n xs) \<subseteq> set xs"
  by (simp add: last_n_def set_drop_subset)

lemma sorted_last_n: "sorted (map f xs) \<Longrightarrow> sorted (map f (last_n n xs))"
  by (simp add: last_n_def drop_map [symmetric] sorted_wrt_drop)

lemma get_context_basic_recent:
  assumes "\<not> (is_comprehensive_monitoring s \<and> comprehensive_monitor s \<noteq> None)"
    and "0 \<le> now - minutes * 60000000" "now - minutes * 60000000 \<le> datetime_max"
  shows "get_context os existing_content now True minutes s =
     Inr (join nl
       (existing_block existing_content @
        [''Current directory: '' @ current_directory s,
         ''Recent activity (last '' @ show_int minutes @ '' minutes):''] @
        map render_entry
          (last_n 20 (sort_key entry_timestamp
             (map Command (filter (\<lambda>cmd. now - minutes * 60000000 \<le> ce_timestamp cmd) (command_history s)) @
              map Output (filter (\<lambda>out. now - minutes * 60000000 \<le> oe_timestamp out) (output_history s)))))))"
proof -
  have m: "minus_minutes now minutes = Inr (now - minutes * 60000000)"
    using assms(2,3) by (simp add: minus_minutes_def)
  have g: "(if is_comprehensive_monitoring s
            then (case comprehensive_monitor s of
                    None \<Rightarrow> None
                  | Some cm \<Rightarrow>
                      (case get_comprehensive_context os 100 cm of
                         Inl e \<Rightarrow> None
                       | Inr t \<Rightarrow> Some t))
            else None) = None"
    using assms(1) by (cases "comprehensive_monitor s") auto
  show ?thesis unfolding get_context_def g by (simp add: m Let_def)
qed

lemma output_history_log_output:
  "output_history (snd (log_output t out command ts s)) =
     deque_append (max_history_items s) (output_history s)
       \<lparr>oe_timestamp = (case ts of None \<Rightarrow> t | Some t' \<Rightarrow> t'), oe_command = command,
        oe_output = out, oe_directory = current_directory s\<rparr>"
proof -
  obtain e s' where r: "append_step (LogOutput t out command ts) s = (e, s')"
    by (cases "append_step (LogOutput t out command ts) s")
  from append_step_histories [OF r] r show ?thesis by simp
qed

lemma log_output_unchanged:
  "command_history (snd (log_output t out command ts s)) = command_history s \<and>
   current_directory (snd (log_output t out command ts s)) = current_directory s \<and>
   max_history_items (snd (log_output t out command ts s)) = max_history_items s \<and>
   comprehensive_monitor (snd (log_output t out command ts s)) = comprehensive_monitor s \<and>
   is_comprehensive_monitoring (snd (log_output t out command ts s)) = is_comprehensive_monitoring s"
proof -
  obtain e s' where r: "log_output t out command ts s = (e, s')"
    by (cases "log_output t out command ts s")
  from log_output_effect [OF r] show ?thesis unfolding r snd_conv
    by (elim ssubst) simp
qed

lemma log_command_unchanged:
  "output_history (snd (log_command t command ts s)) = output_history s \<and>
   current_directory (snd (log_command t command ts s)) = current_directory s \<and>
   comprehensive_monitor (snd (log_command t command ts s)) = comprehensive_monitor s \<and>
   is_comprehensive_monitoring (snd (log_command t command ts s)) = is_comprehensive_monitoring s"
proof -
  obtain e s' where r: "log_command t command ts s = (e, s')"
    by (cases "log_command t command ts s")
  from log_command_effect [OF r] have "s' = s\<lparr>command_history := command_history s',
     session_data := session_data s', context_buffer := context_buffer s'\<rparr>"
    by (elim conjE ssubst) simp
  then show ?thesis unfolding r snd_conv by (elim ssubst) simp
qed

section \<open>Facts about file references\<close>

lemma try_reference_Inr: "\<exists>v. try_reference fs p = Inr v"
  by (simp add: try_reference_def split: sum.splits)

lemma references_loop_result:
  "\<exists>d'. references_loop fs cwd d ms = Inr d' \<and>
      (\<forall>k. map_of d' k =
         (if k \<in> set ms then Some (projr (try_reference fs (resolve_path cwd k))) else map_of d k)) \<and>
      fst ` set d' = fst ` set d \<union> set ms"
proof (induction ms arbitrary: d)
  case Nil
  then show ?case by simp
next
  case (Cons m ms)
  obtain v where v: "try_reference fs (resolve_path cwd m) = Inr v"
    using try_reference_Inr by blast
  from Cons [of "AList.update m v d"] obtain d' where
    d': "references_loop fs cwd (AList.update m v d) ms = Inr d'"
      "\<forall>k. map_of d' k =
         (if k \<in> set ms then Some (projr (try_reference fs (resolve_path cwd k)))
          else map_of (AList.update m v d) k)"
      "fst ` set d' = fst ` set (AList.update m v d) \<union> set ms" by blast
  have 1: "references_loop fs cwd d (m # ms) = Inr d'" using v d'(1) by simp
  have 2: "\<forall>k. map_of d' k =
         (if k \<in> set (m # ms) then Some (projr (try_reference fs (resolve_path cwd k)))
          else map_of d k)"
    using d'(2) v by (auto simp: update_conv')
  have 3: "fst ` set d' = fst ` set d \<union> set (m # ms)"
    using d'(3) by (auto simp: dom_update)
  show ?case using 1 2 3 by blast
qed

section \<open>Facts about bounded deques\<close>

lemma last_n_append_last_n: "last_n n (last_n n ys @ xs) = last_n n (ys @ xs)"
proof (cases "length ys \<le> n")
  case True
  then show ?thesis by (simp add: last_n_def)
next
  case False
  then have a: "length xs - n + (length ys - n) = length ys + length xs - n - (length xs - (length xs - n))"
    by arith
  have b: "length ys + length xs - n - length ys = length xs - n" using False by arith
  have c: "n + length xs - n = length xs" by simp
  have d: "length xs + (length ys - n) = length ys + length xs - n" using False by arith
  show ?thesis using False by (simp add: last_n_def b c d)
qed

lemma deque_extend_last_n:
  "length d \<le> n \<Longrightarrow> deque_extend n d xs = last_n n (d @ xs)"
proof (induction xs arbitrary: d)
  case Nil
  then show ?case by (simp add: last_n_def)
next
  case (Cons x xs)
  have l: "length (deque_append n d x) \<le> n" using Cons.prems by (simp add: length_deque_append)
  have ih: "deque_extend n (deque_append n d x) xs = last_n n (deque_append n d x @ xs)"
    by (rule Cons.IH [OF l])
  have q: "deque_append n d x = last_n n (d @ [x])" by (rule deque_append_last_n [OF Cons.prems])
  show ?case using ih by (simp add: q last_n_append_last_n)
qed

section \<open>Facts about the shell history sources\<close>

lemma distinct_adj_deque_append:
  assumes "distinct_adj (map f q)" "q = [] \<or> f (last q) \<noteq> f x"
  shows "distinct_adj (map f (deque_append n q x))"
proof -
  have a: "distinct_adj (map f (q @ [x]))"
    using assms by (auto simp: distinct_adj_append_iff last_map)
  have t: "distinct_adj (map f (tl (q @ [x])))"
    using a by (cases "q @ [x]") (auto dest: distinct_adj_ConsD)
  show ?thesis using assms(1) a t by (simp add: deque_append_def)
qed

lemma read_history_loop_distinct_adj:
  "distinct_adj (map he_command queued) \<Longrightarrow>
     distinct_adj (map he_command (read_history_loop timestamp queued lines))"
proof (induction lines arbitrary: queued)
  case Nil
  then show ?case by simp
next
  case (Cons line rest)
  show ?case
  proof (cases "basic_history_command line")
    case None
    then show ?thesis using Cons by simp
  next
    case (Some command)
    show ?thesis
    proof (cases "queued = [] \<or> he_command (last queued) \<noteq> command")
      case False
      then show ?thesis using Some Cons by simp
    next
      case True
      let ?e = "\<lparr>he_timestamp = timestamp, he_command = command, he_source = ''history''\<rparr>"
      have "distinct_adj (map he_command (deque_append 100 queued ?e))"
        by (rule distinct_adj_deque_append [OF Cons.prems]) (use True in simp)
      from Cons.IH [OF this] show ?thesis using Some True by simp
    qed
  qed
qed

lemma process_history_loop_all:
  "length new_commands + length lines \<le> 50 \<Longrightarrow>
     map he_command (process_history_loop timestamp new_commands lines) =
       map he_command new_commands @ List.map_filter history_command lines"
proof (induction lines arbitrary: new_commands)
  case Nil
  then show ?case by (simp add: List.map_filter_simps)
next
  case (Cons line rest)
  show ?case
  proof (cases "history_command line")
    case None
    then show ?thesis using Cons by (simp add: List.map_filter_simps)
  next
    case (Some command)
    let ?e = "\<lparr>he_timestamp = timestamp, he_command = command, he_source = ''shell_history''\<rparr>"
    have d: "deque_append 50 new_commands ?e = new_commands @ [?e]"
      using Cons.prems by (simp add: deque_append_def)
    have "length (new_commands @ [?e]) + length rest \<le> 50" using Cons.prems by simp
    from Cons.IH [OF this] show ?thesis using Some d by (simp add: List.map_filter_simps)
  qed
qed

section \<open>Facts about the process sources\<close>

lemma deque_extend_append:
  "deque_extend n d (xs @ ys) = deque_extend n (deque_extend n d xs) ys"
  by (induction xs arbitrary: d) simp_all

lemma set_foldl_set_add: "set (foldl set_add cur xs) = set cur \<union> set xs"
  by (induction xs arbitrary: cur) (auto simp: set_add_def)

lemma distinct_foldl_set_add: "distinct cur \<Longrightarrow> distinct (foldl set_add cur xs)"
  by (induction xs arbitrary: cur) (auto simp: set_add_def)

lemma map_filter_cong_set:
  "(\<And>x. x \<in> set xs \<Longrightarrow> f x = g x) \<Longrightarrow> List.map_filter f xs = List.map_filter g xs"
  by (induction xs) (auto simp: List.map_filter_simps split: option.splits)

lemma monitor_interesting_total:
  "pi_name p \<noteq> None \<Longrightarrow>
     \<exists>b. monitor_is_interesting_process (pi_name p) (cmdline_or_name p) = Inr b"
  by (auto simp: monitor_is_interesting_process_def cmdline_or_name_def Let_def
      split: option.splits)

lemma monitor_scan_result:
  assumes "\<forall>p\<in>set procs. pi_pid p \<notin> set (pm_known_pids m) \<longrightarrow> pi_name p \<noteq> None"
  shows "monitor_scan ts procs (cur, m) =
           (None, foldl set_add cur (map pi_pid procs),
            m\<lparr>pm_processes := deque_extend 50 (pm_processes m)
                 (map (monitor_started_entry ts)
                    (filter (\<lambda>p. pi_pid p \<notin> set (pm_known_pids m) \<and>
                               monitor_is_interesting_process (pi_name p) (cmdline_or_name p) = Inr True)
                       procs))\<rparr>)"
  using assms
proof (induction procs arbitrary: cur m)
  case Nil
  then show ?case by simp
next
  case (Cons p rest)
  have r: "\<forall>q\<in>set rest. pi_pid q \<notin> set (pm_known_pids m) \<longrightarrow> pi_name q \<noteq> None"
    using Cons.prems by simp
  show ?case
  proof (cases "pi_pid p \<in> set (pm_known_pids m)")
    case True
    then show ?thesis using Cons.IH [OF r] by (simp add: Let_def)
  next
    case False
    then have "pi_name p \<noteq> None" using Cons.prems by simp
    from monitor_interesting_total [OF this] obtain b where
      b: "monitor_is_interesting_process (pi_name p) (cmdline_or_name p) = Inr b" by blast
    show ?thesis
    proof (cases b)
      case False
      then show ?thesis using \<open>pi_pid p \<notin> set (pm_known_pids m)\<close> b Cons.IH [OF r]
        by (simp add: Let_def)
    next
      case True
      let ?m = "m\<lparr>pm_processes := deque_append 50 (pm_processes m) (monitor_started_entry ts p)\<rparr>"
      have r': "\<forall>q\<in>set rest. pi_pid q \<notin> set (pm_known_pids ?m) \<longrightarrow> pi_name q \<noteq> None"
        using r by simp
      show ?thesis using \<open>pi_pid p \<notin> set (pm_known_pids m)\<close> b True Cons.IH [OF r']
        by (simp add: Let_def)
    qed
  qed
qed

lemma monitor_terminated_result:
  "monitor_terminated ts pids m =
     m\<lparr>pm_processes := deque_extend 50 (pm_processes m) (map (monitor_terminated_entry ts) pids)\<rparr>"
  by (induction pids arbitrary: m) simp_all

lemma set_minus_filter: "set_minus xs ys = filter (\<lambda>x. x \<notin> set ys) xs"
  by (simp add: set_minus_def)

lemma monitor_cycle_result:
  assumes "\<forall>p\<in>set procs. pi_pid p \<notin> set (pm_known_pids m) \<longrightarrow> pi_name p \<noteq> None"
  shows "monitor_cycle ts procs m =
           m\<lparr>pm_processes := deque_extend 50 (pm_processes m)
                (map (monitor_started_entry ts)
                   (filter (\<lambda>p. pi_pid p \<notin> set (pm_known_pids m) \<and>
                              monitor_is_interesting_process (pi_name p) (cmdline_or_name p) = Inr True)
                      procs) @
                 map (monitor_terminated_entry ts)
                   (filter (\<lambda>pid. pid \<notin> pi_pid ` set procs) (pm_known_pids m))),
              pm_known_pids := foldl set_add [] (map pi_pid procs)\<rparr>"
  by (simp add: monitor_cycle_def monitor_scan_result [OF assms] monitor_terminated_result
      set_minus_filter set_foldl_set_add deque_extend_append)

lemma watcher_interesting_total:
  "pi_name p \<noteq> None \<Longrightarrow> pi_cmdline p \<noteq> None \<Longrightarrow>
     \<exists>b. watcher_is_interesting_process p = Inr b"
  by (auto simp: watcher_is_interesting_process_def Let_def split: option.splits)

lemma watcher_scan_result:
  assumes "\<forall>p\<in>set procs. pi_pid p \<notin> set (pw_known_pids w) \<longrightarrow>
             pi_name p \<noteq> None \<and> pi_cmdline p \<noteq> None"
  shows "watcher_scan ts procs (cur, w) =
           (None, foldl set_add cur (map pi_pid procs),
            w\<lparr>pw_new_processes := deque_extend 30 (pw_new_processes w)
                 (map (watcher_started_entry ts)
                    (filter (\<lambda>p. pi_pid p \<notin> set (pw_known_pids w) \<and>
                               watcher_is_interesting_process p = Inr True) procs)),
              pw_process_cache := foldl (\<lambda>c p. c(pi_pid p \<mapsto> p)) (pw_process_cache w)
                    (filter (\<lambda>p. pi_pid p \<notin> set (pw_known_pids w) \<and>
                               watcher_is_interesting_process p = Inr True) procs)\<rparr>)"
  using assms
proof (induction procs arbitrary: cur w)
  case Nil
  then show ?case by simp
next
  case (Cons p rest)
  have r: "\<forall>q\<in>set rest. pi_pid q \<notin> set (pw_known_pids w) \<longrightarrow>
             pi_name q \<noteq> None \<and> pi_cmdline q \<noteq> None"
    using Cons.prems by simp
  show ?case
  proof (cases "pi_pid p \<in> set (pw_known_pids w)")
    case True
    then show ?thesis using Cons.IH [OF r] by (simp add: Let_def)
  next
    case False
    then have "pi_name p \<noteq> None" "pi_cmdline p \<noteq> None" using Cons.prems by simp_all
    from watcher_interesting_total [OF this] obtain b where
      b: "watcher_is_interesting_process p = Inr b" by blast
    show ?thesis
    proof (cases b)
      case False
      then show ?thesis using \<open>pi_pid p \<notin> set (pw_known_pids w)\<close> b Cons.IH [OF r]
        by (simp add: Let_def)
    next
      case True
      let ?w = "w\<lparr>pw_new_processes := deque_append 30 (pw_new_processes w) (watcher_started_entry ts p),
                  pw_process_cache := (pw_process_cache w)(pi_pid p \<mapsto> p)\<rparr>"
      have r': "\<forall>q\<in>set rest. pi_pid q \<notin> set (pw_known_pids ?w) \<longrightarrow>
             pi_name q \<noteq> None \<and> pi_cmdline q \<noteq> None"
        using r by simp
      show ?thesis using \<open>pi_pid p \<notin> set (pw_known_pids w)\<close> b True Cons.IH [OF r']
        by (simp add: Let_def)
    qed
  qed
qed

lemma watcher_terminated_result:
  assumes "distinct pids"
  shows "watcher_terminated ts pids w =
           w\<lparr>pw_new_processes := deque_extend 30 (pw_new_processes w)
                (List.map_filter
                   (\<lambda>pid. map_option (watcher_terminated_entry ts pid) (pw_process_cache w pid)) pids),
              pw_process_cache := (\<lambda>x. if x \<in> set pids then None else pw_process_cache w x)\<rparr>"
  using assms
proof (induction pids arbitrary: w)
  case Nil
  then show ?case by (simp add: List.map_filter_simps)
next
  case (Cons pid rest)
  then have d: "distinct rest" and n: "pid \<notin> set rest" by simp_all
  show ?case
  proof (cases "pw_process_cache w pid")
    case None
    have "(\<lambda>x. if x \<in> set rest then None else pw_process_cache w x) =
          (\<lambda>x. if x \<in> set (pid # rest) then None else pw_process_cache w x)"
      using None by auto
    then show ?thesis using None Cons.IH [OF d, of w] by (simp add: List.map_filter_simps)
  next
    case (Some info)
    let ?w = "w\<lparr>pw_new_processes := deque_append 30 (pw_new_processes w)
                   (watcher_terminated_entry ts pid info),
                pw_process_cache := (pw_process_cache w)(pid := None)\<rparr>"
    have c: "List.map_filter
               (\<lambda>x. map_option (watcher_terminated_entry ts x) (pw_process_cache ?w x)) rest =
             List.map_filter
               (\<lambda>x. map_option (watcher_terminated_entry ts x) (pw_process_cache w x)) rest"
      by (rule map_filter_cong_set) (use n in auto)
    have f: "(\<lambda>x. if x \<in> set rest then None else pw_process_cache ?w x) =
          (\<lambda>x. if x \<in> set (pid # rest) then None else pw_process_cache w x)"
      by auto
    show ?thesis using Some Cons.IH [OF d, of ?w] unfolding c f
      by (simp add: List.map_filter_simps)
  qed
qed

lemma foldl_upd_other:
  "x \<notin> pi_pid ` set ps \<Longrightarrow> foldl (\<lambda>c p. c(pi_pid p \<mapsto> p)) c ps x = c x"
  by (induction ps arbitrary: c) auto

lemma dom_foldl_upd:
  "dom (foldl (\<lambda>c p. c(pi_pid p \<mapsto> p)) c ps) = dom c \<union> pi_pid ` set ps"
  by (induction ps arbitrary: c) auto

lemma watcher_cycle_result:
  assumes a: "\<forall>p\<in>set procs. pi_pid p \<notin> set (pw_known_pids w) \<longrightarrow>
             pi_name p \<noteq> None \<and> pi_cmdline p \<noteq> None"
    and d: "distinct (pw_known_pids w)"
  shows "watcher_cycle ts procs w =
           w\<lparr>pw_new_processes := deque_extend 30 (pw_new_processes w)
                (map (watcher_started_entry ts)
                   (filter (\<lambda>p. pi_pid p \<notin> set (pw_known_pids w) \<and>
                              watcher_is_interesting_process p = Inr True) procs) @
                 List.map_filter
                   (\<lambda>pid. map_option (watcher_terminated_entry ts pid) (pw_process_cache w pid))
                   (filter (\<lambda>pid. pid \<notin> pi_pid ` set procs) (pw_known_pids w))),
              pw_process_cache :=
                (\<lambda>x. if x \<in> set (pw_known_pids w) \<and> x \<notin> pi_pid ` set procs then None
                      else foldl (\<lambda>c p. c(pi_pid p \<mapsto> p)) (pw_process_cache w)
                             (filter (\<lambda>p. pi_pid p \<notin> set (pw_known_pids w) \<and>
                                        watcher_is_interesting_process p = Inr True) procs) x),
              pw_known_pids := foldl set_add [] (map pi_pid procs)\<rparr>"
proof -
  let ?S = "filter (\<lambda>p. pi_pid p \<notin> set (pw_known_pids w) \<and>
                        watcher_is_interesting_process p = Inr True) procs"
  let ?T = "filter (\<lambda>pid. pid \<notin> pi_pid ` set procs) (pw_known_pids w)"
  let ?c1 = "foldl (\<lambda>c p. c(pi_pid p \<mapsto> p)) (pw_process_cache w) ?S"
  let ?w1 = "w\<lparr>pw_new_processes := deque_extend 30 (pw_new_processes w)
                   (map (watcher_started_entry ts) ?S),
                pw_process_cache := ?c1\<rparr>"
  have s: "watcher_scan ts procs ([], w) = (None, foldl set_add [] (map pi_pid procs), ?w1)"
    by (rule watcher_scan_result [OF a])
  have t: "set_minus (pw_known_pids ?w1) (foldl set_add [] (map pi_pid procs)) = ?T"
    by (simp add: set_minus_filter set_foldl_set_add)
  have dt: "distinct ?T" using d by simp
  have c: "List.map_filter (\<lambda>pid. map_option (watcher_terminated_entry ts pid) (?c1 pid)) ?T =
           List.map_filter (\<lambda>pid. map_option (watcher_terminated_entry ts pid) (pw_process_cache w pid)) ?T"
  proof (rule map_filter_cong_set)
    fix x assume "x \<in> set ?T"
    then have "x \<notin> pi_pid ` set ?S" by auto
    then have "?c1 x = pw_process_cache w x" by (rule foldl_upd_other)
    then show "map_option (watcher_terminated_entry ts x) (?c1 x) =
               map_option (watcher_terminated_entry ts x) (pw_process_cache w x)" by simp
  qed
  have f: "(\<lambda>x. if x \<in> set ?T then None else ?c1 x) =
           (\<lambda>x. if x \<in> set (pw_known_pids w) \<and> x \<notin> pi_pid ` set procs then None else ?c1 x)"
    by auto
  have e1: "watcher_cycle ts procs w =
          (watcher_terminated ts ?T ?w1)\<lparr>pw_known_pids := foldl set_add [] (map pi_pid procs)\<rparr>"
    unfolding watcher_cycle_def s t [symmetric] by simp
  have e2: "watcher_terminated ts ?T ?w1 =
     ?w1\<lparr>pw_new_processes := deque_extend 30 (pw_new_processes ?w1)
                (List.map_filter
                   (\<lambda>pid. map_option (watcher_terminated_entry ts pid) (pw_process_cache ?w1 pid)) ?T),
              pw_process_cache := (\<lambda>x. if x \<in> set ?T then None else pw_process_cache ?w1 x)\<rparr>"
    by (rule watcher_terminated_result [OF dt])
  have pc: "pw_process_cache ?w1 = ?c1" by simp
  show ?thesis unfolding e1 e2 pc c by (simp add: deque_extend_append f)
qed

section \<open>The frame of \<open>log_command\<close>\<close>

lemma update_context_buffer_fits:
  "int (length (context_buffer s @ text @ nl)) \<le> max_context_size s \<Longrightarrow>
     update_context_buffer text s = (None, s\<lparr>context_buffer := context_buffer s @ text @ nl\<rparr>)"
  by (simp add: update_context_buffer_def Let_def)

lemma trim_lines_negative:
  "m < 0 \<Longrightarrow> trim_lines m ls = Inl (IndexError ''pop from empty list'')"
  by (induction ls) auto

lemma update_context_buffer_negative:
  assumes "max_context_size s < 0"
  shows "update_context_buffer text s =
           (Some (IndexError ''pop from empty list''), s\<lparr>context_buffer := context_buffer s @ text @ nl\<rparr>)"
proof -
  have "int (length (context_buffer s @ text @ nl)) > max_context_size s" using assms by simp
  then show ?thesis
    by (simp add: update_context_buffer_def Let_def trim_lines_negative [OF assms])
qed

lemma split_from_no_sep:
  "c \<notin> set xs \<Longrightarrow> split_from c cur (xs @ c # ys) = (rev cur @ xs) # split_from c [] ys"
  by (induction xs arbitrary: cur) auto

lemma update_context_buffer_long_line:
  assumes "context_buffer s = []" "CHR 0x0A \<notin> set text" "0 \<le> max_context_size s"
    and "max_context_size s < int (length text) + 1"
  shows "update_context_buffer text s = (None, s\<lparr>context_buffer := []\<rparr>)"
proof -
  have sp: "split_on CHR 0x0A (text @ nl) = [text, []]"
    using split_from_no_sep [OF assms(2), of "[]" "[]"] by (simp add: split_on_def)
  have t: "trim_lines (max_context_size s) [text, []] = Inr [[]]"
    using assms(3,4) by simp
  show ?thesis using assms(1,3,4) by (simp add: update_context_buffer_def Let_def sp t)
qed

text \<open>
  Claim C10. A call of \<open>log_command\<close> appends exactly one entry to
  \<open>session_data["commands"]\<close>. The command history is a deque of capacity
  \<open>max_history_items\<close>: with capacity 0 it is left as it was; otherwise the new entry
  becomes its last element, after the earlier entries, less the oldest one when the deque
  was full. The rendered line \<open>[HH:MM:SS] $ command\<close> and a newline are appended to
  the context buffer; when the result fits in \<open>max_context_size\<close> it is the new
  buffer. When it does not fit (and \<open>max_context_size\<close> is not negative) the call
  does not raise and the new buffer is that text without its first \<open>k\<close> lines, for
  the least \<open>k\<close> that brings it to at most 80% of \<open>max_context_size\<close>; the
  lines dropped may include the line just appended. With a negative \<open>max_context_size\<close>
  the call raises \<open>IndexError\<close> and leaves the untrimmed text in the buffer. In every
  case the output history, the other lists of \<open>session_data\<close>, the current directory
  and the configuration are unchanged, and \<open>session_data["commands"]\<close> and the command
  history are as described also when the call raises.
\<close>

theorem log_command_frame:
  "(let s' = snd (log_command now command ts s);
        timestamp = (case ts of None \<Rightarrow> now | Some t \<Rightarrow> t);
        command_entry = \<lparr>ce_timestamp = timestamp, ce_command = command,
                         ce_directory = current_directory s, ce_duration = None\<rparr>;
        line = ''['' @ strftime_hms timestamp @ ''] $ '' @ command;
        lines = split_on CHR 0x0A (context_buffer s @ line @ nl)
    in commands (session_data s') = commands (session_data s) @ [command_entry] \<and>
       (max_history_items s = 0 \<longrightarrow> command_history s' = command_history s) \<and>
       (0 < max_history_items s \<longrightarrow>
          command_history s' \<noteq> [] \<and> last (command_history s') = command_entry \<and>
          butlast (command_history s') =
            (if length (command_history s) < max_history_items s then command_history s
             else tl (command_history s))) \<and>
       (0 \<le> max_context_size s \<longrightarrow>
          fst (log_command now command ts s) = None \<and>
          (\<exists>k. context_buffer s' = join nl (drop k lines) \<and>
               (\<forall>j<k. 5 * int (length (join nl (drop j lines))) > 4 * max_context_size s) \<and>
               (if int (length (context_buffer s @ line @ nl)) > max_context_size s
                then 5 * int (length (context_buffer s')) \<le> 4 * max_context_size s
                else k = 0))) \<and>
       (int (length (context_buffer s @ line @ nl)) \<le> max_context_size s \<longrightarrow>
          context_buffer s' = context_buffer s @ line @ nl) \<and>
       (max_context_size s < 0 \<longrightarrow>
          fst (log_command now command ts s) = Some (IndexError ''pop from empty list'') \<and>
          context_buffer s' = context_buffer s @ line @ nl) \<and>
       output_history s' = output_history s \<and>
       outputs (session_data s') = outputs (session_data s) \<and>
       directory_changes (session_data s') = directory_changes (session_data s) \<and>
       file_operations (session_data s') = file_operations (session_data s) \<and>
       start_time (session_data s') = start_time (session_data s) \<and>
       current_directory s' = current_directory s \<and>
       session_start s' = session_start s \<and>
       max_context_size s' = max_context_size s \<and>
       max_history_items s' = max_history_items s \<and>
       comprehensive_monitor s' = comprehensive_monitor s \<and>
       is_comprehensive_monitoring s' = is_comprehensive_monitoring s)"
proof -
  obtain e s' where r: "log_command now command ts s = (e, s')" by (cases "log_command now command ts s")
  let ?t = "case ts of None \<Rightarrow> now | Some t \<Rightarrow> t"
  let ?entry = "\<lparr>ce_timestamp = ?t, ce_command = command,
                 ce_directory = current_directory s, ce_duration = None\<rparr>"
  let ?line = "''['' @ strftime_hms ?t @ ''] $ '' @ command"
  let ?lines = "split_on CHR 0x0A (context_buffer s @ ?line @ nl)"
  let ?s2 = "s\<lparr>command_history := deque_append (max_history_items s) (command_history s) ?entry,
              session_data := (session_data s)\<lparr>commands := commands (session_data s) @ [?entry]\<rparr>\<rparr>"
  have u: "update_context_buffer ?line ?s2 = (e, s')"
    using r by (simp add: log_command_def Let_def command_line_def)
  from log_command_effect [OF r]
  have eff: "s' = s\<lparr>command_history := deque_append (max_history_items s) (command_history s) ?entry,
           session_data := (session_data s)\<lparr>commands := commands (session_data s) @ [?entry]\<rparr>,
           context_buffer := context_buffer s'\<rparr>"
    by simp
  have h: "command_history s' = deque_append (max_history_items s) (command_history s) ?entry"
    by (subst eff) simp
  have dq0: "max_history_items s = 0 \<longrightarrow> command_history s' = command_history s"
    unfolding h by (simp add: deque_append_def)
  have dq: "0 < max_history_items s \<longrightarrow>
          command_history s' \<noteq> [] \<and> last (command_history s') = ?entry \<and>
          butlast (command_history s') =
            (if length (command_history s) < max_history_items s then command_history s
             else tl (command_history s))"
    unfolding h by (cases "command_history s") (auto simp: deque_append_def butlast_append)
  have nonneg: "0 \<le> max_context_size s \<longrightarrow>
          e = None \<and>
          (\<exists>k. context_buffer s' = join nl (drop k ?lines) \<and>
               (\<forall>j<k. 5 * int (length (join nl (drop j ?lines))) > 4 * max_context_size s) \<and>
               (if int (length (context_buffer s @ ?line @ nl)) > max_context_size s
                then 5 * int (length (context_buffer s')) \<le> 4 * max_context_size s
                else k = 0))"
  proof
    assume "0 \<le> max_context_size s"
    then have m: "0 \<le> max_context_size ?s2" by simp
    have cb: "context_buffer ?s2 = context_buffer s" by simp
    have ms: "max_context_size ?s2 = max_context_size s" by simp
    from update_context_buffer_result [OF m, of ?line, unfolded cb ms] obtain k where
      k: "update_context_buffer ?line ?s2 = (None, ?s2\<lparr>context_buffer := join nl (drop k ?lines)\<rparr>)"
         "\<forall>j<k. 5 * int (length (join nl (drop j ?lines))) > 4 * max_context_size s"
         "if int (length (context_buffer s @ ?line @ nl)) > max_context_size s
              then 5 * int (length (join nl (drop k ?lines))) \<le> 4 * max_context_size s
              else k = 0"
      by blast
    have "(e, s') = (None, ?s2\<lparr>context_buffer := join nl (drop k ?lines)\<rparr>)"
      using u k(1) by simp
    then have e: "e = None" and s': "s' = ?s2\<lparr>context_buffer := join nl (drop k ?lines)\<rparr>"
      by simp_all
    have b: "context_buffer s' = join nl (drop k ?lines)" by (subst s') simp
    note 1 = k(2)
    have 2: "if int (length (context_buffer s @ ?line @ nl)) > max_context_size s
                then 5 * int (length (context_buffer s')) \<le> 4 * max_context_size s
                else k = 0"
      unfolding b by (rule k(3))
    show "e = None \<and>
          (\<exists>k. context_buffer s' = join nl (drop k ?lines) \<and>
               (\<forall>j<k. 5 * int (length (join nl (drop j ?lines))) > 4 * max_context_size s) \<and>
               (if int (length (context_buffer s @ ?line @ nl)) > max_context_size s
                then 5 * int (length (context_buffer s')) \<le> 4 * max_context_size s
                else k = 0))"
      using e b 1 2 by blast
  qed
  have fits: "int (length (context_buffer s @ ?line @ nl)) \<le> max_context_size s \<longrightarrow>
          context_buffer s' = context_buffer s @ ?line @ nl"
  proof
    assume a: "int (length (context_buffer s @ ?line @ nl)) \<le> max_context_size s"
    show "context_buffer s' = context_buffer s @ ?line @ nl"
      using u a by (auto simp: update_context_buffer_fits)
  qed
  have neg: "max_context_size s < 0 \<longrightarrow>
          e = Some (IndexError ''pop from empty list'') \<and>
          context_buffer s' = context_buffer s @ ?line @ nl"
  proof
    assume "max_context_size s < 0"
    then have m: "max_context_size ?s2 < 0" by simp
    show "e = Some (IndexError ''pop from empty list'') \<and>
          context_buffer s' = context_buffer s @ ?line @ nl"
      using u update_context_buffer_negative [OF m, of ?line] by auto
  qed
  have c: "commands (session_data s') = commands (session_data s) @ [?entry]" by (subst eff) simp
  have o: "output_history s' = output_history s" by (subst eff) simp
  have f1: "outputs (session_data s') = outputs (session_data s)" by (subst eff) simp
  have f2: "directory_changes (session_data s') = directory_changes (session_data s)" by (subst eff) simp
  have f3: "file_operations (session_data s') = file_operations (session_data s)" by (subst eff) simp
  have f4: "start_time (session_data s') = start_time (session_data s)" by (subst eff) simp
  have f5: "current_directory s' = current_directory s" by (subst eff) simp
  have f6: "session_start s' = session_start s" by (subst eff) simp
  have f7: "max_context_size s' = max_context_size s" by (subst eff) simp
  have f8: "max_history_items s' = max_history_items s" by (subst eff) simp
  have f9: "comprehensive_monitor s' = comprehensive_monitor s" by (subst eff) simp
  have f10: "is_comprehensive_monitoring s' = is_comprehensive_monitoring s" by (subst eff) simp
  show ?thesis
    unfolding Let_def r fst_conv snd_conv
    by (intro conjI c dq0 dq nonneg fits neg o f1 f2 f3 f4 f5 f6 f7 f8 f9 f10)
qed

text \<open>
  Instances of the theorem: a first command under the default configuration (the buffer
  is the rendered line); a second command with \<open>max_history_items = 1\<close> and
  \<open>max_context_size = 25\<close> (the first entry is evicted and the first line is trimmed);
  a command with \<open>max_history_items = 0\<close>; a command with a negative
  \<open>max_context_size\<close>.
\<close>

theorem log_command_frame_witness:
  "context_buffer (snd (log_command 0 ''ls'' None (init_monitor 10000 100 ''/home'' 0 None False))) =
     ''[00:00:00] $ ls'' @ nl \<and>
   command_history (snd (log_command 0 ''ls'' None (init_monitor 10000 100 ''/home'' 0 None False))) =
     [\<lparr>ce_timestamp = 0, ce_command = ''ls'', ce_directory = ''/home'', ce_duration = None\<rparr>] \<and>
   fst (log_command 0 ''ls'' None (init_monitor 10000 100 ''/home'' 0 None False)) = None \<and>
   fst (log_command 0 ''pwd'' None
         (snd (log_command 0 ''ls'' None (init_monitor 25 (Suc 0) ''/'' 0 None False)))) = None \<and>
   command_history (snd (log_command 0 ''pwd'' None
         (snd (log_command 0 ''ls'' None (init_monitor 25 (Suc 0) ''/'' 0 None False))))) =
     [\<lparr>ce_timestamp = 0, ce_command = ''pwd'', ce_directory = ''/'', ce_duration = None\<rparr>] \<and>
   context_buffer (snd (log_command 0 ''pwd'' None
         (snd (log_command 0 ''ls'' None (init_monitor 25 (Suc 0) ''/'' 0 None False))))) =
     ''[00:00:00] $ pwd'' @ nl \<and>
   command_history (snd (log_command 0 ''ls'' None (init_monitor 10000 0 ''/'' 0 None False))) = [] \<and>
   fst (log_command 0 ''ls'' None (init_monitor (- 1) 100 ''/'' 0 None False)) =
     Some (IndexError ''pop from empty list'') \<and>
   context_buffer (snd (log_command 0 ''ls'' None (init_monitor (- 1) 100 ''/'' 0 None False))) =
     ''[00:00:00] $ ls'' @ nl"
proof -
  have n: "\<And>xs x. xs \<noteq> [] \<Longrightarrow> last xs = x \<Longrightarrow> butlast xs = [] \<Longrightarrow> xs = [x]"
    by (metis append_butlast_last_id append_Nil)
  let ?a = "init_monitor 10000 100 ''/home'' 0 None False"
  have a: "max_history_items ?a = 100" "max_context_size ?a = 10000" "command_history ?a = []"
    "context_buffer ?a = []" "current_directory ?a = ''/home''"
    by (simp_all add: init_monitor_def)
  have w1: "context_buffer (snd (log_command 0 ''ls'' None ?a)) = ''[00:00:00] $ ls'' @ nl \<and>
     command_history (snd (log_command 0 ''ls'' None ?a)) =
       [\<lparr>ce_timestamp = 0, ce_command = ''ls'', ce_directory = ''/home'', ce_duration = None\<rparr>] \<and>
     fst (log_command 0 ''ls'' None ?a) = None"
    using log_command_frame [of 0 "''ls''" None ?a]
    by (simp add: Let_def a n join_split_on)
  let ?p = "init_monitor 25 (Suc 0) ''/'' 0 None False"
  let ?q = "snd (log_command 0 ''ls'' None ?p)"
  have p: "max_history_items ?p = Suc 0" "max_context_size ?p = 25" "command_history ?p = []"
    "context_buffer ?p = []" "current_directory ?p = ''/''"
    by (simp_all add: init_monitor_def)
  have q: "max_history_items ?q = Suc 0" "max_context_size ?q = 25"
    "command_history ?q = [\<lparr>ce_timestamp = 0, ce_command = ''ls'', ce_directory = ''/'', ce_duration = None\<rparr>]"
    "context_buffer ?q = ''[00:00:00] $ ls'' @ nl" "current_directory ?q = ''/''"
    using log_command_frame [of 0 "''ls''" None ?p]
    by (simp_all add: Let_def p n join_split_on)
  let ?L = "[''[00:00:00] $ ls'', ''[00:00:00] $ pwd'', []]"
  have "\<exists>k. context_buffer (snd (log_command 0 ''pwd'' None ?q)) = join nl (drop k ?L) \<and>
          (\<forall>j<k. 5 * int (length (join nl (drop j ?L))) > 4 * 25) \<and>
          5 * int (length (context_buffer (snd (log_command 0 ''pwd'' None ?q)))) \<le> 4 * 25"
    using log_command_frame [of 0 "''pwd''" None ?q]
    by (simp add: Let_def q split_on_def)
  then obtain k where k: "context_buffer (snd (log_command 0 ''pwd'' None ?q)) = join nl (drop k ?L)"
    "\<forall>j<k. 5 * int (length (join nl (drop j ?L))) > 4 * 25"
    "5 * int (length (context_buffer (snd (log_command 0 ''pwd'' None ?q)))) \<le> 4 * 25"
    by blast
  have "k \<noteq> 0"
  proof
    assume "k = 0"
    with k(1,3) show False by simp
  qed
  moreover have "k < 2"
  proof (rule ccontr)
    assume "\<not> k < 2"
    then have "1 < k" by simp
    with k(2) have "5 * int (length (join nl (drop 1 ?L))) > 4 * 25" by blast
    then show False by simp
  qed
  ultimately have "k = 1" by simp
  with k(1) have bv: "context_buffer (snd (log_command 0 ''pwd'' None ?q)) = ''[00:00:00] $ pwd'' @ nl"
    by simp
  have w2: "fst (log_command 0 ''pwd'' None ?q) = None \<and>
     command_history (snd (log_command 0 ''pwd'' None ?q)) =
       [\<lparr>ce_timestamp = 0, ce_command = ''pwd'', ce_directory = ''/'', ce_duration = None\<rparr>]"
    using log_command_frame [of 0 "''pwd''" None ?q]
    by (simp add: Let_def q n)
  let ?c = "init_monitor 10000 0 ''/'' 0 None False"
  have c: "max_history_items ?c = 0" "command_history ?c = []" by (simp_all add: init_monitor_def)
  have w3: "command_history (snd (log_command 0 ''ls'' None ?c)) = []"
    using log_command_frame [of 0 "''ls''" None ?c] by (simp add: Let_def c)
  let ?d = "init_monitor (- 1) 100 ''/'' 0 None False"
  have d: "max_context_size ?d = - 1" "context_buffer ?d = []" by (simp_all add: init_monitor_def)
  have w4: "fst (log_command 0 ''ls'' None ?d) = Some (IndexError ''pop from empty list'') \<and>
     context_buffer (snd (log_command 0 ''ls'' None ?d)) = ''[00:00:00] $ ls'' @ nl"
    using log_command_frame [of 0 "''ls''" None ?d] by (simp add: Let_def d)
  show ?thesis using w1 w2 bv w3 w4 by simp
qed

text \<open>
  The unqualified reading, one entry more in the command history and one line more in the
  context buffer after every call, does not hold. Under the default configuration
  (\<open>max_context_size = 10000\<close>, \<open>max_history_items = 100\<close>) a command of 10000
  characters logged on a fresh monitor leaves the context buffer empty, without raising:
  the rendered line alone exceeds 80% of the bound, so the trim drops it. With
  \<open>max_history_items = 0\<close> the command history stays empty.
\<close>

theorem log_command_frame_counterexample:
  "fst (log_command 0 (replicate 10000 CHR ''a'') None
          (init_monitor 10000 100 ''/'' 0 None False)) = None \<and>
   context_buffer (snd (log_command 0 (replicate 10000 CHR ''a'') None
          (init_monitor 10000 100 ''/'' 0 None False))) = [] \<and>
   command_history (snd (log_command 0 ''ls'' None (init_monitor 10000 0 ''/'' 0 None False))) = []"
proof -
  let ?i = "init_monitor 10000 100 ''/'' 0 None False"
  let ?text = "command_line 0 (replicate 10000 CHR ''a'')"
  let ?s2 = "?i\<lparr>command_history := deque_append (max_history_items ?i) (command_history ?i)
                 \<lparr>ce_timestamp = 0, ce_command = replicate 10000 CHR ''a'',
                  ce_directory = current_directory ?i, ce_duration = None\<rparr>,
               session_data := (session_data ?i)\<lparr>commands := commands (session_data ?i) @
                 [\<lparr>ce_timestamp = 0, ce_command = replicate 10000 CHR ''a'',
                  ce_directory = current_directory ?i, ce_duration = None\<rparr>]\<rparr>\<rparr>"
  have l: "log_command 0 (replicate 10000 CHR ''a'') None ?i = update_context_buffer ?text ?s2"
    by (simp add: log_command_def Let_def)
  have 1: "context_buffer ?s2 = []" by (simp add: init_monitor_def)
  have 2: "CHR 0x0A \<notin> set ?text" by (simp add: command_line_def)
  have 3: "0 \<le> max_context_size ?s2" by (simp add: init_monitor_def)
  have 4: "max_context_size ?s2 < int (length ?text) + 1"
    by (simp add: init_monitor_def command_line_def)
  note u = update_context_buffer_long_line [OF 1 2 3 4]
  have a: "fst (log_command 0 (replicate 10000 CHR ''a'') None ?i) = None"
    unfolding l u by simp
  have b: "context_buffer (snd (log_command 0 (replicate 10000 CHR ''a'') None ?i)) = []"
    unfolding l u by simp
  have c: "command_history (snd (log_command 0 ''ls'' None (init_monitor 10000 0 ''/'' 0 None False))) = []"
    by (simp add: command_history_log_command init_monitor_def deque_append_def)
  show ?thesis by (intro conjI a b c)
qed

section \<open>The bounds of the buffers\<close>

text \<open>
  Claim C1. Take a monitor built with a context bound \<open>max_context_size \<ge> 0\<close> and any
  sequence of appends (\<open>log_command\<close>, \<open>log_output\<close>, \<open>log_directory_change\<close>,
  \<open>log_file_operation\<close>). No call raises, and in the monitor \<open>s\<close> that the sequence
  leaves, the command and output histories hold at most \<open>max_history_items\<close> entries and
  the context buffer at most \<open>max_context_size\<close> characters. A further \<open>log_command\<close> or
  \<open>log_output\<close> leaves the last \<open>max_history_items\<close> entries of the history with the new
  entry added at the end: the oldest are evicted first. A further update of the context buffer
  with any text drops the first \<open>k\<close> lines of the buffer with the text and a newline added:
  \<open>k = 0\<close> when that fits in \<open>max_context_size\<close>, otherwise \<open>k\<close> is the least number
  of lines whose removal brings the length to at most 80% of \<open>max_context_size\<close>; either
  way the result is within \<open>max_context_size\<close>.
\<close>

theorem buffers_bounded:
  assumes "0 \<le> mcs"
  shows "\<exists>s. appends calls (init_monitor mcs mhi cwd now cm started) = (None, s) \<and>
     length (command_history s) \<le> mhi \<and>
     length (output_history s) \<le> mhi \<and>
     int (length (context_buffer s)) \<le> mcs \<and>
     (\<forall>t command ts.
        command_history (snd (log_command t command ts s)) =
          last_n mhi (command_history s @
            [\<lparr>ce_timestamp = (case ts of None \<Rightarrow> t | Some t' \<Rightarrow> t'), ce_command = command,
              ce_directory = current_directory s, ce_duration = None\<rparr>])) \<and>
     (\<forall>t out command ts.
        output_history (snd (log_output t out command ts s)) =
          last_n mhi (output_history s @
            [\<lparr>oe_timestamp = (case ts of None \<Rightarrow> t | Some t' \<Rightarrow> t'), oe_command = command,
              oe_output = out, oe_directory = current_directory s\<rparr>])) \<and>
     (\<forall>text. \<exists>k.
        update_context_buffer text s =
          (None, s\<lparr>context_buffer :=
                     join nl (drop k (split_on CHR 0x0A (context_buffer s @ text @ nl)))\<rparr>) \<and>
        (\<forall>j<k. 5 * int (length (join nl (drop j (split_on CHR 0x0A (context_buffer s @ text @ nl)))))
                 > 4 * mcs) \<and>
        (if int (length (context_buffer s @ text @ nl)) > mcs
         then 5 * int (length (join nl (drop k (split_on CHR 0x0A (context_buffer s @ text @ nl)))))
                \<le> 4 * mcs
         else k = 0) \<and>
        int (length (join nl (drop k (split_on CHR 0x0A (context_buffer s @ text @ nl))))) \<le> mcs)"
proof -
  let ?i = "init_monitor mcs mhi cwd now cm started"
  have i: "max_context_size ?i = mcs" "max_history_items ?i = mhi" by (simp_all add: init_monitor_def)
  have "0 \<le> max_context_size ?i" using assms i by simp
  from appends_bounded [OF this bounded_init [OF assms], of calls] obtain s where
    s: "appends calls ?i = (None, s)" "bounded s" "max_context_size s = mcs" "max_history_items s = mhi"
    using i by auto
  have b: "length (command_history s) \<le> mhi" "length (output_history s) \<le> mhi"
    "int (length (context_buffer s)) \<le> mcs"
    using s(2,3,4) by (simp_all add: bounded_def)
  have c: "\<forall>t command ts.
        command_history (snd (log_command t command ts s)) =
          last_n mhi (command_history s @
            [\<lparr>ce_timestamp = (case ts of None \<Rightarrow> t | Some t' \<Rightarrow> t'), ce_command = command,
              ce_directory = current_directory s, ce_duration = None\<rparr>])"
  proof (intro allI)
    fix t command ts
    obtain e s' where r: "append_step (LogCommand t command ts) s = (e, s')"
      by (cases "append_step (LogCommand t command ts) s")
    from append_step_histories [OF r] r b(1) s(4)
    show "command_history (snd (log_command t command ts s)) =
          last_n mhi (command_history s @
            [\<lparr>ce_timestamp = (case ts of None \<Rightarrow> t | Some t' \<Rightarrow> t'), ce_command = command,
              ce_directory = current_directory s, ce_duration = None\<rparr>])"
      by (simp add: deque_append_last_n)
  qed
  have o: "\<forall>t out command ts.
        output_history (snd (log_output t out command ts s)) =
          last_n mhi (output_history s @
            [\<lparr>oe_timestamp = (case ts of None \<Rightarrow> t | Some t' \<Rightarrow> t'), oe_command = command,
              oe_output = out, oe_directory = current_directory s\<rparr>])"
  proof (intro allI)
    fix t out command ts
    obtain e s' where r: "append_step (LogOutput t out command ts) s = (e, s')"
      by (cases "append_step (LogOutput t out command ts) s")
    from append_step_histories [OF r] r b(2) s(4)
    show "output_history (snd (log_output t out command ts s)) =
          last_n mhi (output_history s @
            [\<lparr>oe_timestamp = (case ts of None \<Rightarrow> t | Some t' \<Rightarrow> t'), oe_command = command,
              oe_output = out, oe_directory = current_directory s\<rparr>])"
      by (simp add: deque_append_last_n)
  qed
  have u: "\<forall>text. \<exists>k.
        update_context_buffer text s =
          (None, s\<lparr>context_buffer :=
                     join nl (drop k (split_on CHR 0x0A (context_buffer s @ text @ nl)))\<rparr>) \<and>
        (\<forall>j<k. 5 * int (length (join nl (drop j (split_on CHR 0x0A (context_buffer s @ text @ nl)))))
                 > 4 * mcs) \<and>
        (if int (length (context_buffer s @ text @ nl)) > mcs
         then 5 * int (length (join nl (drop k (split_on CHR 0x0A (context_buffer s @ text @ nl)))))
                \<le> 4 * mcs
         else k = 0) \<and>
        int (length (join nl (drop k (split_on CHR 0x0A (context_buffer s @ text @ nl))))) \<le> mcs"
  proof
    fix tx
    have m: "0 \<le> max_context_size s" using s(3) assms by simp
    from update_context_buffer_result [OF m, of tx] obtain k where k:
      "update_context_buffer tx s =
          (None, s\<lparr>context_buffer :=
                     join nl (drop k (split_on CHR 0x0A (context_buffer s @ tx @ nl)))\<rparr>)"
      "\<forall>j<k. 5 * int (length (join nl (drop j (split_on CHR 0x0A (context_buffer s @ tx @ nl)))))
                 > 4 * mcs"
      "if int (length (context_buffer s @ tx @ nl)) > mcs
         then 5 * int (length (join nl (drop k (split_on CHR 0x0A (context_buffer s @ tx @ nl)))))
                \<le> 4 * mcs
         else k = 0"
      unfolding s(3) by blast
    have "int (length (join nl (drop k (split_on CHR 0x0A (context_buffer s @ tx @ nl))))) \<le> mcs"
    proof (cases "int (length (context_buffer s @ tx @ nl)) > mcs")
      case True
      then show ?thesis using k(3) assms by simp
    next
      case False
      then have "k = 0" using k(3) by simp
      then show ?thesis using False by (simp add: join_split_on)
    qed
    then show "\<exists>k.
        update_context_buffer tx s =
          (None, s\<lparr>context_buffer :=
                     join nl (drop k (split_on CHR 0x0A (context_buffer s @ tx @ nl)))\<rparr>) \<and>
        (\<forall>j<k. 5 * int (length (join nl (drop j (split_on CHR 0x0A (context_buffer s @ tx @ nl)))))
                 > 4 * mcs) \<and>
        (if int (length (context_buffer s @ tx @ nl)) > mcs
         then 5 * int (length (join nl (drop k (split_on CHR 0x0A (context_buffer s @ tx @ nl)))))
                \<le> 4 * mcs
         else k = 0) \<and>
        int (length (join nl (drop k (split_on CHR 0x0A (context_buffer s @ tx @ nl))))) \<le> mcs"
      using k by blast
  qed
  show ?thesis using s(1) b c o u by blast
qed

theorem buffers_bounded_witness:
  "(0::int) \<le> 25 \<and>
   (\<exists>s. appends [LogCommand 0 ''ls'' None, LogCommand 0 ''pwd'' None]
          (init_monitor 25 1 ''/'' 0 None False) = (None, s) \<and>
        length (command_history s) \<le> 1 \<and> int (length (context_buffer s)) \<le> 25 \<and>
        map ce_command (command_history s) = [''pwd''] \<and>
        context_buffer s = ''[00:00:00] $ pwd'' @ nl)"
proof -
  let ?r = "appends [LogCommand 0 ''ls'' None, LogCommand 0 ''pwd'' None]
          (init_monitor 25 1 ''/'' 0 None False)"
  have h: "(0::int) \<le> 25" by simp
  from buffers_bounded [OF h, of "[LogCommand 0 ''ls'' None, LogCommand 0 ''pwd'' None]" 1 "''/''" 0 None False]
  obtain s where s: "?r = (None, s)" "length (command_history s) \<le> 1"
    "int (length (context_buffer s)) \<le> 25" by blast
  have c: "map ce_command (command_history (snd ?r)) = [''pwd''] \<and>
        context_buffer (snd ?r) = ''[00:00:00] $ pwd'' @ nl"
    by (simp add: init_monitor_def log_command_def update_context_buffer_def command_line_def
        deque_append_def Let_def split_on_def)
  show ?thesis using h s c by simp
qed

section \<open>The counts of the session summary\<close>

text \<open>
  Claim C9. After any sequence of appends on a fresh monitor, \<open>get_session_summary\<close>
  reports as \<open>total_commands\<close> and \<open>total_outputs\<close> the lengths of the two bounded
  deques: the number of \<open>log_command\<close> (\<open>log_output\<close>) calls or \<open>max_history_items\<close>,
  whichever is smaller, so each is at most \<open>max_history_items\<close>, while
  \<open>session_data\<close> holds every logged entry. The summary is returned when
  \<open>max_context_size \<ge> 0\<close> (no append raises) and no logged command is made of
  whitespace only (on such a command \<open>_get_most_used_commands\<close> raises and no summary is
  returned).
\<close>

theorem summary_counts_bounded:
  assumes "0 \<le> mcs"
    and "\<forall>t command ts. LogCommand t command ts \<in> set calls \<longrightarrow>
           command = [] \<or> (\<exists>c\<in>set command. \<not> is_space c)"
  shows "\<exists>s sm. appends calls (init_monitor mcs mhi cwd t0 cm started) = (None, s) \<and>
     get_session_summary now s = Inr sm \<and>
     total_commands sm = length (command_history s) \<and>
     total_outputs sm = length (output_history s) \<and>
     total_commands sm = min (length (filter is_log_command calls)) mhi \<and>
     total_outputs sm = min (length (filter is_log_output calls)) mhi \<and>
     total_commands sm \<le> mhi \<and> total_outputs sm \<le> mhi \<and>
     length (commands (session_data s)) = length (filter is_log_command calls) \<and>
     length (outputs (session_data s)) = length (filter is_log_output calls)"
proof -
  let ?i = "init_monitor mcs mhi cwd t0 cm started"
  have i: "max_context_size ?i = mcs" "max_history_items ?i = mhi" "command_history ?i = []"
    "output_history ?i = []" "commands (session_data ?i) = []" "outputs (session_data ?i) = []"
    by (simp_all add: init_monitor_def)
  have "0 \<le> max_context_size ?i" using assms(1) i by simp
  from appends_bounded [OF this bounded_init [OF assms(1)], of calls] obtain s where
    s: "appends calls ?i = (None, s)"
      "length (command_history s) = min (length (filter is_log_command calls)) mhi"
      "length (output_history s) = min (length (filter is_log_output calls)) mhi"
      "length (commands (session_data s)) = length (filter is_log_command calls)"
      "length (outputs (session_data s)) = length (filter is_log_output calls)"
    unfolding i by auto
  have "\<forall>x\<in>set (command_history ?i). ce_command x = [] \<or> (\<exists>c\<in>set (ce_command x). \<not> is_space c)"
    using i(3) by simp
  from appends_commands [where P = "\<lambda>command. command = [] \<or> (\<exists>c\<in>set command. \<not> is_space c)",
      OF s(1) this assms(2)]
  have "\<forall>x\<in>set (command_history s). ce_command x = [] \<or> (\<exists>c\<in>set (ce_command x). \<not> is_space c)" .
  from get_session_summary_ok [OF this, of now] obtain sm where
    sm: "get_session_summary now s = Inr sm" "total_commands sm = length (command_history s)"
      "total_outputs sm = length (output_history s)" by blast
  have "total_commands sm \<le> mhi" "total_outputs sm \<le> mhi" using sm s(2,3) by simp_all
  then show ?thesis using s sm by auto
qed

theorem summary_counts_bounded_witness:
  "(0::int) \<le> 10000 \<and>
   (\<exists>s sm. appends [LogCommand 0 ''ls'' None, LogCommand 0 ''pwd'' None]
             (init_monitor 10000 1 ''/'' 0 None False) = (None, s) \<and>
      get_session_summary 0 s = Inr sm \<and> total_commands sm = 1 \<and> total_outputs sm = 0 \<and>
      length (commands (session_data s)) = 2)"
proof -
  have h: "(0::int) \<le> 10000" by simp
  have c: "\<forall>t command ts. LogCommand t command ts \<in> set [LogCommand 0 ''ls'' None, LogCommand 0 ''pwd'' None] \<longrightarrow>
           command = [] \<or> (\<exists>c\<in>set command. \<not> is_space c)"
    by (auto simp: is_space_def)
  from summary_counts_bounded [OF h c, of 1 "''/''" 0 None False 0]
  show ?thesis by auto
qed

section \<open>The most used commands\<close>

text \<open>
  Claim C7, at the input where the code fails it. A non-empty command made of whitespace
  passes the test \<open>if cmd_entry["command"]\<close>, \<open>split()\<close> of it is empty, and
  \<open>split()[0]\<close> raises \<open>IndexError\<close>: after \<open>log_command(" ")\<close> neither the most-used
  list nor the session summary is returned. On the history of the spec's example,
  \<open>git status\<close>, \<open>git pull\<close>, \<open>ls\<close>, the list is \<open>git: 2, ls: 1\<close>.
\<close>

theorem most_used_commands_blank_command:
  "get_most_used_commands
     (snd (log_command 0 '' '' None (init_monitor 10000 100 ''/'' 0 None False))) = Inl (IndexError ''list index out of range'') \<and>
   get_session_summary 0
     (snd (log_command 0 '' '' None (init_monitor 10000 100 ''/'' 0 None False))) = Inl (IndexError ''list index out of range'') \<and>
   get_most_used_commands
     ((init_monitor 10000 100 ''/'' 0 None False)
        \<lparr>command_history :=
           [\<lparr>ce_timestamp = 0, ce_command = ''git status'', ce_directory = ''/'', ce_duration = None\<rparr>,
            \<lparr>ce_timestamp = 1, ce_command = ''git pull'', ce_directory = ''/'', ce_duration = None\<rparr>,
            \<lparr>ce_timestamp = 2, ce_command = ''ls'', ce_directory = ''/'', ce_duration = None\<rparr>]\<rparr>)
     = Inr [(''git'', 2), (''ls'', 1)]"
proof -
  let ?s = "snd (log_command 0 '' '' None (init_monitor 10000 100 ''/'' 0 None False))"
  have h: "command_history ?s =
     [\<lparr>ce_timestamp = 0, ce_command = '' '', ce_directory = ''/'', ce_duration = None\<rparr>]"
    by (simp add: command_history_log_command init_monitor_def deque_append_def)
  have b: "command_basename '' '' = Inl (IndexError ''list index out of range'')"
    by (simp add: command_basename_def split_ws_def)
  have 1: "get_most_used_commands ?s = Inl (IndexError ''list index out of range'')"
    by (simp add: get_most_used_commands_def h b)
  have 2: "get_session_summary 0 ?s = Inl (IndexError ''list index out of range'')"
    by (simp add: get_session_summary_def 1)
  have g: "command_basename ''git status'' = Inr ''git''" "command_basename ''git pull'' = Inr ''git''"
    "command_basename ''ls'' = Inr ''ls''"
    by (simp_all add: command_basename_def split_ws_def is_space_def)
  have 3: "get_most_used_commands
     ((init_monitor 10000 100 ''/'' 0 None False)
        \<lparr>command_history :=
           [\<lparr>ce_timestamp = 0, ce_command = ''git status'', ce_directory = ''/'', ce_duration = None\<rparr>,
            \<lparr>ce_timestamp = 1, ce_command = ''git pull'', ce_directory = ''/'', ce_duration = None\<rparr>,
            \<lparr>ce_timestamp = 2, ce_command = ''ls'', ce_directory = ''/'', ce_duration = None\<rparr>]\<rparr>)
     = Inr [(''git'', 2), (''ls'', 1)]"
    by (simp add: get_most_used_commands_def g dict_get_def sorted_by_count_desc_def)
  show ?thesis using 1 2 3 by simp
qed

section \<open>The recent window of \<open>get_context\<close>\<close>

text \<open>
  Claim C4, as amended. When comprehensive monitoring is not active and
  \<open>now - minutes\<close> is a datetime, \<open>get_context(include_recent_only=True, minutes)\<close>
  returns the preamble (the existing-content block, the current directory and the
  heading) followed by one rendered line for each entry of \<open>es\<close>, where \<open>es\<close> has at
  most 20 entries, all of them commands or outputs of the two histories with a timestamp
  not older than \<open>minutes\<close> minutes before \<open>now\<close>; \<open>es\<close> is the last 20 of
  \<open>sorted_entries\<close>, which holds exactly the qualifying entries in ascending order of
  timestamp, entries of equal timestamp being the commands in insertion order followed
  by the outputs in insertion order. A command is rendered as \<open>$ command\<close>; an output
  longer than 500 characters as its first 500 characters followed by \<open>...\<close>.
\<close>

theorem recent_context_window:
  assumes "\<not> (is_comprehensive_monitoring s \<and> comprehensive_monitor s \<noteq> None)"
    and "0 \<le> now - minutes * 60000000" "now - minutes * 60000000 \<le> datetime_max"
  shows "\<exists>es sorted_entries.
     get_context os existing_content now True minutes s =
       Inr (join nl
         (existing_block existing_content @
          [''Current directory: '' @ current_directory s,
           ''Recent activity (last '' @ show_int minutes @ '' minutes):''] @
          map render_entry es)) \<and>
     length es \<le> 20 \<and>
     (\<forall>e\<in>set es. now - minutes * 60000000 \<le> entry_timestamp e) \<and>
     set es \<subseteq> Command ` set (command_history s) \<union> Output ` set (output_history s) \<and>
     sorted (map entry_timestamp es) \<and>
     es = last_n 20 sorted_entries \<and>
     sorted (map entry_timestamp sorted_entries) \<and>
     mset sorted_entries =
       mset (map Command (filter (\<lambda>cmd. now - minutes * 60000000 \<le> ce_timestamp cmd) (command_history s))) +
       mset (map Output (filter (\<lambda>out. now - minutes * 60000000 \<le> oe_timestamp out) (output_history s))) \<and>
     (\<forall>t. filter (\<lambda>e. entry_timestamp e = t) sorted_entries =
          map Command (filter (\<lambda>cmd. ce_timestamp cmd = t \<and> now - minutes * 60000000 \<le> t) (command_history s)) @
          map Output (filter (\<lambda>out. oe_timestamp out = t \<and> now - minutes * 60000000 \<le> t) (output_history s))) \<and>
     (\<forall>cmd. render_entry (Command cmd) = ''$ '' @ ce_command cmd) \<and>
     (\<forall>out. render_entry (Output out) =
        (if length (oe_output out) > 500 then take 500 (oe_output out) @ ''...'' else oe_output out))"
proof -
  let ?c = "now - minutes * 60000000"
  let ?q = "map Command (filter (\<lambda>cmd. ?c \<le> ce_timestamp cmd) (command_history s)) @
            map Output (filter (\<lambda>out. ?c \<le> oe_timestamp out) (output_history s))"
  let ?all = "sort_key entry_timestamp ?q"
  let ?es = "last_n 20 ?all"
  have 1: "get_context os existing_content now True minutes s =
       Inr (join nl
         (existing_block existing_content @
          [''Current directory: '' @ current_directory s,
           ''Recent activity (last '' @ show_int minutes @ '' minutes):''] @
          map render_entry ?es))"
    by (rule get_context_basic_recent [OF assms])
  have 2: "length ?es \<le> 20" by (rule length_last_n)
  have sub: "set ?es \<subseteq> set ?q" using set_last_n [of 20 ?all] by simp
  have 3: "\<forall>e\<in>set ?es. ?c \<le> entry_timestamp e" using sub by auto
  have 4: "set ?es \<subseteq> Command ` set (command_history s) \<union> Output ` set (output_history s)"
    using sub by auto
  have 6: "sorted (map entry_timestamp ?all)" by (rule sorted_sort_key)
  have 5: "sorted (map entry_timestamp ?es)" by (rule sorted_last_n [OF 6])
  have 7: "mset ?all =
       mset (map Command (filter (\<lambda>cmd. ?c \<le> ce_timestamp cmd) (command_history s))) +
       mset (map Output (filter (\<lambda>out. ?c \<le> oe_timestamp out) (output_history s)))"
    by simp
  have 8: "\<forall>t. filter (\<lambda>e. entry_timestamp e = t) ?all =
          map Command (filter (\<lambda>cmd. ce_timestamp cmd = t \<and> ?c \<le> t) (command_history s)) @
          map Output (filter (\<lambda>out. oe_timestamp out = t \<and> ?c \<le> t) (output_history s))"
  proof
    fix t
    have "filter (\<lambda>e. entry_timestamp e = t) ?all = filter (\<lambda>e. entry_timestamp e = t) ?q"
      by (rule sort_key_stable)
    also have "\<dots> =
          map Command (filter (\<lambda>cmd. ce_timestamp cmd = t \<and> ?c \<le> t) (command_history s)) @
          map Output (filter (\<lambda>out. oe_timestamp out = t \<and> ?c \<le> t) (output_history s))"
    proof -
      have a: "(\<lambda>x. ?c \<le> ce_timestamp x \<and> ce_timestamp x = t) =
               (\<lambda>cmd. ce_timestamp cmd = t \<and> ?c \<le> t)" by auto
      have b: "(\<lambda>x. ?c \<le> oe_timestamp x \<and> oe_timestamp x = t) =
               (\<lambda>out. oe_timestamp out = t \<and> ?c \<le> t)" by auto
      show ?thesis by (simp add: filter_map comp_def a b)
    qed
    finally show "filter (\<lambda>e. entry_timestamp e = t) ?all =
          map Command (filter (\<lambda>cmd. ce_timestamp cmd = t \<and> ?c \<le> t) (command_history s)) @
          map Output (filter (\<lambda>out. oe_timestamp out = t \<and> ?c \<le> t) (output_history s))" .
  qed
  have 9: "\<forall>cmd. render_entry (Command cmd) = ''$ '' @ ce_command cmd" by simp
  have 10: "\<forall>out. render_entry (Output out) =
        (if length (oe_output out) > 500 then take 500 (oe_output out) @ ''...'' else oe_output out)"
    by simp
  show ?thesis
    apply (rule exI [of _ ?es])
    apply (rule exI [of _ ?all])
    using 1 2 3 4 5 6 7 8 9 10 by blast
qed

theorem recent_context_window_witness:
  "\<not> (is_comprehensive_monitoring
        ((init_monitor 10000 100 ''/'' 0 None False)
           \<lparr>command_history :=
              [\<lparr>ce_timestamp = 3600000000, ce_command = ''make'', ce_directory = ''/'', ce_duration = None\<rparr>,
               \<lparr>ce_timestamp = 6000000000, ce_command = ''ls'', ce_directory = ''/'', ce_duration = None\<rparr>],
            output_history :=
              [\<lparr>oe_timestamp = 6000000001, oe_command = ''ls'', oe_output = ''a.txt'', oe_directory = ''/''\<rparr>]\<rparr>) \<and>
       comprehensive_monitor
        ((init_monitor 10000 100 ''/'' 0 None False)
           \<lparr>command_history :=
              [\<lparr>ce_timestamp = 3600000000, ce_command = ''make'', ce_directory = ''/'', ce_duration = None\<rparr>,
               \<lparr>ce_timestamp = 6000000000, ce_command = ''ls'', ce_directory = ''/'', ce_duration = None\<rparr>],
            output_history :=
              [\<lparr>oe_timestamp = 6000000001, oe_command = ''ls'', oe_output = ''a.txt'', oe_directory = ''/''\<rparr>]\<rparr>) \<noteq> None) \<and>
   (0::int) \<le> 7200000000 - 30 * 60000000 \<and> 7200000000 - 30 * 60000000 \<le> datetime_max \<and>
   get_context bare_os '''' 7200000000 True 30
     ((init_monitor 10000 100 ''/'' 0 None False)
        \<lparr>command_history :=
           [\<lparr>ce_timestamp = 3600000000, ce_command = ''make'', ce_directory = ''/'', ce_duration = None\<rparr>,
            \<lparr>ce_timestamp = 6000000000, ce_command = ''ls'', ce_directory = ''/'', ce_duration = None\<rparr>],
         output_history :=
           [\<lparr>oe_timestamp = 6000000001, oe_command = ''ls'', oe_output = ''a.txt'', oe_directory = ''/''\<rparr>]\<rparr>)
     = Inr (join nl [''Current directory: /'', ''Recent activity (last 30 minutes):'', ''$ ls'', ''a.txt''])"
proof -
  let ?s = "(init_monitor 10000 100 ''/'' 0 None False)
        \<lparr>command_history :=
           [\<lparr>ce_timestamp = 3600000000, ce_command = ''make'', ce_directory = ''/'', ce_duration = None\<rparr>,
            \<lparr>ce_timestamp = 6000000000, ce_command = ''ls'', ce_directory = ''/'', ce_duration = None\<rparr>],
         output_history :=
           [\<lparr>oe_timestamp = 6000000001, oe_command = ''ls'', oe_output = ''a.txt'', oe_directory = ''/''\<rparr>]\<rparr>"
  have h1: "\<not> (is_comprehensive_monitoring ?s \<and> comprehensive_monitor ?s \<noteq> None)"
    by (simp add: init_monitor_def)
  have h2: "(0::int) \<le> 7200000000 - 30 * 60000000" by simp
  have h3: "(7200000000::int) - 30 * 60000000 \<le> datetime_max" by (simp add: datetime_max_def)
  from recent_context_window [OF h1 h2 h3, of bare_os "''''"]
  obtain es sorted_entries where
    g: "get_context bare_os '''' 7200000000 True 30 ?s =
       Inr (join nl
         (existing_block '''' @
          [''Current directory: '' @ current_directory ?s,
           ''Recent activity (last '' @ show_int 30 @ '' minutes):''] @
          map render_entry es))"
    and l: "length es \<le> 20" by blast
  have v: "get_context bare_os '''' 7200000000 True 30 ?s
     = Inr (join nl [''Current directory: /'', ''Recent activity (last 30 minutes):'', ''$ ls'', ''a.txt''])"
    by (simp add: get_context_def init_monitor_def minus_minutes_def datetime_max_def
        existing_block_def show_int_def digit_def last_n_def Let_def)
  show ?thesis using h1 h2 h3 g v by simp
qed

text \<open>
  The claim as the spec states it fails in three ways. An output logged before a command
  with the same timestamp is rendered after it (ties go to commands first, not to insertion
  order). With comprehensive monitoring active, \<open>get_context\<close> returns the comprehensive
  context whatever \<open>include_recent_only\<close> and \<open>minutes\<close> are: here 21 command lines
  stamped 01:00:00 at a call made at 10:00:00 with \<open>minutes=30\<close>. And when
  \<open>now - minutes\<close> is before \<open>datetime.min\<close> the call raises \<open>OverflowError\<close>.
\<close>

theorem recent_context_counterexample:
  "get_context bare_os '''' 7200000000 True 30
     (snd (log_command 7200000000 ''ls'' (Some 6000000000)
       (snd (log_output 7200000000 ''a.txt'' '''' (Some 6000000000)
         (init_monitor 10000 100 ''/'' 0 None False)))))
     = Inr (join nl [''Current directory: /'', ''Recent activity (last 30 minutes):'', ''$ ls'', ''a.txt'']) \<and>
   get_context bare_os '''' 7200000000 True 30
     (snd (log_command 7200000000 ''ls'' (Some 6000000000)
       (snd (log_output 7200000000 ''a.txt'' '''' (Some 6000000000)
         (init_monitor 10000 100 ''/'' 0 None False)))))
     \<noteq> Inr (join nl [''Current directory: /'', ''Recent activity (last 30 minutes):'', ''a.txt'', ''$ ls'']) \<and>
   get_context bare_os '''' 36000000000 True 30
     (init_monitor 10000 100 ''/'' 0
        (Some \<lparr>terminal_buffer = replicate 21 ''[01:00:00] $ ls'', cm_commands = 21,
               cm_processes = 0, cm_files_accessed = 0\<rparr>) True)
     = Inr (join nl
         ([''=== SYSTEM CONTEXT ==='', ''User: unknown'', ''Shell: unknown'', ''PWD: /'',
           ''Terminal: unknown'', ''Session PID: 1'', '''', ''=== TERMINAL ACTIVITY ===''] @
          replicate 21 ''[01:00:00] $ ls'' @
          ['''', ''=== SESSION STATISTICS ==='', ''Commands executed: 21'',
           ''Processes monitored: 0'', ''Files accessed: 0'', '''', ''=== ENVIRONMENT ===''])) \<and>
   get_context bare_os '''' 63850000000000000 True 2000000000
     (init_monitor 10000 100 ''/'' 0 None False) = Inl (OverflowError ''date value out of range'')"
proof -
  let ?s = "snd (log_command 7200000000 ''ls'' (Some 6000000000)
       (snd (log_output 7200000000 ''a.txt'' '''' (Some 6000000000)
         (init_monitor 10000 100 ''/'' 0 None False))))"
  have c: "command_history ?s =
     [\<lparr>ce_timestamp = 6000000000, ce_command = ''ls'', ce_directory = ''/'', ce_duration = None\<rparr>]"
    by (simp add: command_history_log_command log_output_unchanged init_monitor_def deque_append_def)
  have o: "output_history ?s =
     [\<lparr>oe_timestamp = 6000000000, oe_command = '''', oe_output = ''a.txt'', oe_directory = ''/''\<rparr>]"
    by (simp add: log_command_unchanged output_history_log_output init_monitor_def deque_append_def)
  have d: "current_directory ?s = ''/''" "comprehensive_monitor ?s = None"
    "is_comprehensive_monitoring ?s = False"
    by (simp_all add: log_command_unchanged log_output_unchanged init_monitor_def)
  have 1: "get_context bare_os '''' 7200000000 True 30 ?s
     = Inr (join nl [''Current directory: /'', ''Recent activity (last 30 minutes):'', ''$ ls'', ''a.txt''])"
    by (simp add: get_context_def c o d minus_minutes_def datetime_max_def
        existing_block_def show_int_def digit_def last_n_def Let_def)
  have 2: "get_context bare_os '''' 7200000000 True 30 ?s
     \<noteq> Inr (join nl [''Current directory: /'', ''Recent activity (last 30 minutes):'', ''a.txt'', ''$ ls''])"
    unfolding 1 by simp
  have 3: "get_context bare_os '''' 36000000000 True 30
     (init_monitor 10000 100 ''/'' 0
        (Some \<lparr>terminal_buffer = replicate 21 ''[01:00:00] $ ls'', cm_commands = 21,
               cm_processes = 0, cm_files_accessed = 0\<rparr>) True)
     = Inr (join nl
         ([''=== SYSTEM CONTEXT ==='', ''User: unknown'', ''Shell: unknown'', ''PWD: /'',
           ''Terminal: unknown'', ''Session PID: 1'', '''', ''=== TERMINAL ACTIVITY ===''] @
          replicate 21 ''[01:00:00] $ ls'' @
          ['''', ''=== SESSION STATISTICS ==='', ''Commands executed: 21'',
           ''Processes monitored: 0'', ''Files accessed: 0'', '''', ''=== ENVIRONMENT ===''])) "
    by (simp add: get_context_def get_comprehensive_context_def init_monitor_def bare_os_def
        getenv_default_def neg_slice_def last_n_def important_vars_def digit_def)
  have 4: "get_context bare_os '''' 63850000000000000 True 2000000000
     (init_monitor 10000 100 ''/'' 0 None False) = Inl (OverflowError ''date value out of range'')"
    by (simp add: get_context_def init_monitor_def minus_minutes_def)
  show ?thesis using 1 2 3 4 by blast
qed

section \<open>Resolving file references\<close>

text \<open>
  Claim C6. For every text, every file system and every monitor,
  \<open>parse_file_references\<close> returns a mapping and raises nothing. Its keys are the
  \<open>@\<close> tokens of the text. A token whose resolved path does not exist maps to
  \<open>File not found: \<close> followed by the resolved path; a token whose file cannot be read
  maps to \<open>Error reading file: \<close> followed by the message of the exception; a readable
  file maps to its content and a listable directory to its listing.
\<close>

theorem file_references_in_band:
  "\<exists>d. parse_file_references fs message s = Inr d \<and>
     fst ` set d = set (find_refs message) \<and>
     (\<forall>m\<in>set (find_refs message).
        (fs (resolve_path (current_directory s) m) = NoEntry \<longrightarrow>
           map_of d m = Some (''File not found: '' @ resolve_path (current_directory s) m)) \<and>
        (\<forall>e. fs (resolve_path (current_directory s) m) = RegularFile (Inl e) \<longrightarrow>
           map_of d m = Some (''Error reading file: '' @ str_exn e)) \<and>
        (\<forall>content. fs (resolve_path (current_directory s) m) = RegularFile (Inr content) \<longrightarrow>
           map_of d m = Some content) \<and>
        (\<forall>contents. fs (resolve_path (current_directory s) m) = Directory (Inr contents) \<longrightarrow>
           map_of d m = Some (''Directory contents:'' @ nl @ join nl contents)))"
proof -
  from references_loop_result [of fs "current_directory s" "[]" "find_refs message"]
  obtain d where d: "parse_file_references fs message s = Inr d"
    "\<forall>k. map_of d k =
         (if k \<in> set (find_refs message)
          then Some (projr (try_reference fs (resolve_path (current_directory s) k))) else None)"
    "fst ` set d = set (find_refs message)"
    by (auto simp: parse_file_references_def)
  have "\<forall>m\<in>set (find_refs message).
        (fs (resolve_path (current_directory s) m) = NoEntry \<longrightarrow>
           map_of d m = Some (''File not found: '' @ resolve_path (current_directory s) m)) \<and>
        (\<forall>e. fs (resolve_path (current_directory s) m) = RegularFile (Inl e) \<longrightarrow>
           map_of d m = Some (''Error reading file: '' @ str_exn e)) \<and>
        (\<forall>content. fs (resolve_path (current_directory s) m) = RegularFile (Inr content) \<longrightarrow>
           map_of d m = Some content) \<and>
        (\<forall>contents. fs (resolve_path (current_directory s) m) = Directory (Inr contents) \<longrightarrow>
           map_of d m = Some (''Directory contents:'' @ nl @ join nl contents))"
    using d(2) by (auto simp: try_reference_def read_reference_def)
  then show ?thesis using d(1,3) by blast
qed

theorem file_references_in_band_witness:
  "parse_file_references empty_fs ''@missing.txt'' (init_monitor 10000 100 ''/home/u'' 0 None False)
     = Inr [(''missing.txt'', ''File not found: /home/u/missing.txt'')] \<and>
   parse_file_references sample_fs ''see @/etc/shadow and @notes.md''
       (init_monitor 10000 100 ''/home/u'' 0 None False)
     = Inr [(''/etc/shadow'', ''Error reading file: [Errno 13] Permission denied''),
            (''notes.md'', ''File not found: /home/u/notes.md'')]"
proof -
  let ?s = "init_monitor 10000 100 ''/home/u'' 0 None False"
  have cd: "current_directory ?s = ''/home/u''" by (simp add: init_monitor_def)
  have f1: "find_refs ''@missing.txt'' = [''missing.txt'']"
    by (simp add: ref_char_def is_space_def)
  have f2: "find_refs ''see @/etc/shadow and @notes.md'' = [''/etc/shadow'', ''notes.md'']"
    by (simp add: ref_char_def is_space_def)
  have p1: "resolve_path ''/home/u'' ''missing.txt'' = ''/home/u/missing.txt''"
    "resolve_path ''/home/u'' ''notes.md'' = ''/home/u/notes.md''"
    "resolve_path ''/home/u'' ''/etc/shadow'' = ''/etc/shadow''"
    by (simp_all add: resolve_path_def path_join_def startswith_def)
  from file_references_in_band [of empty_fs "''@missing.txt''" ?s, unfolded f1 cd]
  obtain d where d: "parse_file_references empty_fs ''@missing.txt'' ?s = Inr d"
    "fst ` set d = {''missing.txt''}"
    "map_of d ''missing.txt'' = Some (''File not found: /home/u/missing.txt'')"
    by (auto simp: p1 empty_fs_def)
  from file_references_in_band [of sample_fs "''see @/etc/shadow and @notes.md''" ?s, unfolded f2 cd]
  obtain d2 where d2: "parse_file_references sample_fs ''see @/etc/shadow and @notes.md'' ?s = Inr d2"
    "map_of d2 ''/etc/shadow'' = Some (''Error reading file: [Errno 13] Permission denied'')"
    "map_of d2 ''notes.md'' = Some (''File not found: /home/u/notes.md'')"
    by (auto simp: p1 sample_fs_def)
  have e1: "parse_file_references empty_fs ''@missing.txt'' ?s
     = Inr [(''missing.txt'', ''File not found: /home/u/missing.txt'')]"
    by (simp add: parse_file_references_def f1 cd p1 try_reference_def read_reference_def empty_fs_def
        del: find_refs.simps)
  have e2: "parse_file_references sample_fs ''see @/etc/shadow and @notes.md'' ?s
     = Inr [(''/etc/shadow'', ''Error reading file: [Errno 13] Permission denied''),
            (''notes.md'', ''File not found: /home/u/notes.md'')]"
    by (simp add: parse_file_references_def f2 cd p1 try_reference_def read_reference_def sample_fs_def
        del: find_refs.simps)
  show ?thesis using d d2 e1 e2 by simp
qed

section \<open>Loading a session\<close>

text \<open>
  Claim C8, at the inputs where the code fails it. When the file cannot be opened or is
  not JSON, \<open>load_session\<close> leaves the state as it was, and from a file that holds an
  object with two lists it takes the session data and fills each history with the last
  \<open>max_history_items\<close> entries of its list. But the session data is replaced and both
  histories are cleared before the loaded value is looked at: from a file that holds
  \<open>[]\<close> the call returns with the session data replaced by \<open>[]\<close> and both histories
  empty, and from a file whose \<open>outputs\<close> is a number it returns with the command
  history replaced and the output history empty.
\<close>

theorem load_session_partial:
  "load_session (Inl e) s = s \<and>
   load_session (Inr (JObject [(''commands'', JArray cmds), (''outputs'', JArray outs)])) s =
     s\<lparr>sj_session_data := JObject [(''commands'', JArray cmds), (''outputs'', JArray outs)],
       sj_command_history := last_n (sj_max_history_items s) cmds,
       sj_output_history := last_n (sj_max_history_items s) outs\<rparr> \<and>
   load_session (Inr (JArray [])) sample_session =
     sample_session\<lparr>sj_session_data := JArray [], sj_command_history := [],
                    sj_output_history := []\<rparr> \<and>
   load_session (Inr (JObject [(''commands'', JArray [JObject [(''command'', JString ''pwd'')]]),
                              (''outputs'', JNumber 5)])) sample_session =
     sample_session\<lparr>sj_session_data :=
                      JObject [(''commands'', JArray [JObject [(''command'', JString ''pwd'')]]),
                               (''outputs'', JNumber 5)],
                    sj_command_history := [JObject [(''command'', JString ''pwd'')]],
                    sj_output_history := []\<rparr> \<and>
   load_session (Inr (JArray [])) sample_session \<noteq> sample_session \<and>
   sj_command_history sample_session = [JObject [(''command'', JString ''ls'')]] \<and>
   sj_output_history sample_session = [JObject [(''output'', JString ''a.txt'')]]"
proof -
  have 1: "load_session (Inl e) s = s"
    by (simp add: load_session_def load_session_try_def)
  have 2: "load_session (Inr (JObject [(''commands'', JArray cmds), (''outputs'', JArray outs)])) s =
     s\<lparr>sj_session_data := JObject [(''commands'', JArray cmds), (''outputs'', JArray outs)],
       sj_command_history := last_n (sj_max_history_items s) cmds,
       sj_output_history := last_n (sj_max_history_items s) outs\<rparr>"
    by (simp add: load_session_def load_session_try_def Let_def json_get_def json_iter_def
        deque_extend_last_n)
  have 3: "load_session (Inr (JArray [])) sample_session =
     sample_session\<lparr>sj_session_data := JArray [], sj_command_history := [],
                    sj_output_history := []\<rparr>"
    by (simp add: load_session_def load_session_try_def Let_def json_get_def)
  have 4: "load_session (Inr (JObject [(''commands'', JArray [JObject [(''command'', JString ''pwd'')]]),
                              (''outputs'', JNumber 5)])) sample_session =
     sample_session\<lparr>sj_session_data :=
                      JObject [(''commands'', JArray [JObject [(''command'', JString ''pwd'')]]),
                               (''outputs'', JNumber 5)],
                    sj_command_history := [JObject [(''command'', JString ''pwd'')]],
                    sj_output_history := []\<rparr>"
    by (simp add: load_session_def load_session_try_def Let_def json_get_def json_iter_def
        sample_session_def deque_append_def)
  have 5: "sj_command_history sample_session = [JObject [(''command'', JString ''ls'')]]"
    "sj_output_history sample_session = [JObject [(''output'', JString ''a.txt'')]]"
    by (simp_all add: sample_session_def)
  have 6: "load_session (Inr (JArray [])) sample_session \<noteq> sample_session"
  proof
    assume "load_session (Inr (JArray [])) sample_session = sample_session"
    then have "sj_command_history (load_session (Inr (JArray [])) sample_session) =
               sj_command_history sample_session" by simp
    then show False unfolding 3 by (simp add: 5)
  qed
  show ?thesis by (intro conjI 1 2 3 4 5 6)
qed

section \<open>Consecutive identical history lines\<close>

text \<open>
  Claim C3. When the history file is re-read and two consecutive lines carry the same
  command, one event is to be queued for the pair. \<open>_read_new_history\<close> of
  \<open>terminal_monitor.py\<close> does that: it compares each command with the last queued one
  ("Avoid duplicates"), so in what it queues from an empty queue no two neighbours carry
  the same command, and the lines \<open>ls\<close>, \<open>ls\<close> give the one event \<open>ls\<close>.
  \<open>_process_history_update\<close> of \<open>comprehensive_monitor.py\<close> makes no such
  comparison: from an empty queue it queues one event for every one of the last 10 lines
  that carries a command, so the lines \<open>ls\<close>, \<open>ls\<close> give two events.
\<close>

theorem history_reread_duplicates:
  "map he_command (process_history_update (Inr lines) timestamp []) =
     List.map_filter history_command (last_n 10 lines) \<and>
   map he_command (process_history_update (Inr [''ls'' @ nl, ''ls'' @ nl]) ''10:00:00'' []) =
     [''ls'', ''ls''] \<and>
   map he_command (read_new_history (Inr [''ls'' @ nl, ''ls'' @ nl]) ''10:00:00'' []) = [''ls''] \<and>
   distinct_adj (map he_command (read_new_history file timestamp []))"
proof -
  have h: "history_command (''ls'' @ nl) = Some ''ls''"
    by (simp add: history_command_def parse_history_line_def startswith_def strip_def
        is_space_def split1_def)
  have b: "basic_history_command (''ls'' @ nl) = Some ''ls''"
    unfolding basic_history_command_eq by (rule h)
  have 0: "map he_command (process_history_update (Inr lines) timestamp []) =
     List.map_filter history_command (last_n 10 lines)"
    using process_history_loop_all [of "[]" "last_n 10 lines" timestamp] length_last_n [of 10 lines]
    by (simp add: process_history_update_def)
  have 1: "map he_command (process_history_update (Inr [''ls'' @ nl, ''ls'' @ nl]) ''10:00:00'' []) =
     [''ls'', ''ls'']"
    using h by (simp add: process_history_update_def last_n_def deque_append_def)
  have 2: "map he_command (read_new_history (Inr [''ls'' @ nl, ''ls'' @ nl]) ''10:00:00'' []) = [''ls'']"
    using b by (simp add: read_new_history_def deque_append_def)
  have 3: "distinct_adj (map he_command (read_new_history file timestamp []))"
    by (cases "file") (simp_all add: read_new_history_def read_history_loop_distinct_adj)
  show ?thesis by (intro conjI 0 1 2 3)
qed

section \<open>Process events between two snapshots\<close>

text \<open>
  Claim C5, as amended. One pass of either process monitor over a snapshot in which every
  new process reports a name (for \<open>ProcessWatcher\<close> also a command line), so that the
  pass does not raise, appends to its queue, in this order: one \<open>started\<close> event for
  each process of the snapshot whose pid is not among the known pids and which matches
  the allow-list; then the \<open>terminated\<close> events. \<open>ProcessMonitor\<close> of
  \<open>terminal_monitor.py\<close> appends a \<open>terminated\<close> event for each known pid that is
  absent from the snapshot. \<open>ProcessWatcher\<close> of \<open>comprehensive_monitor.py\<close> appends
  one only for those absent pids that it holds in \<open>process_cache\<close>: the pids for which
  it queued a \<open>started\<close> event and no \<open>terminated\<close> event since. The queues are deques
  that keep the last 50 and the last 30 entries. After the pass the known pids are the
  pids of the snapshot, and the cache of the watcher holds what it held and the
  processes just reported as started, less the pids that have gone.
\<close>

theorem process_events:
  "((\<forall>p\<in>set procs. pi_pid p \<notin> set (pm_known_pids m) \<longrightarrow> pi_name p \<noteq> None) \<and>
    length (pm_processes m) \<le> 50 \<longrightarrow>
      pm_processes (monitor_cycle ts procs m) =
        last_n 50
          (pm_processes m @
           map (monitor_started_entry ts)
             (filter (\<lambda>p. pi_pid p \<notin> set (pm_known_pids m) \<and>
                        monitor_is_interesting_process (pi_name p) (cmdline_or_name p) = Inr True)
                procs) @
           map (monitor_terminated_entry ts)
             (filter (\<lambda>pid. pid \<notin> pi_pid ` set procs) (pm_known_pids m))) \<and>
      set (pm_known_pids (monitor_cycle ts procs m)) = pi_pid ` set procs \<and>
      distinct (pm_known_pids (monitor_cycle ts procs m))) \<and>
   ((\<forall>p\<in>set procs. pi_pid p \<notin> set (pw_known_pids w) \<longrightarrow>
        pi_name p \<noteq> None \<and> pi_cmdline p \<noteq> None) \<and>
    length (pw_new_processes w) \<le> 30 \<and> distinct (pw_known_pids w) \<longrightarrow>
      pw_new_processes (watcher_cycle ts procs w) =
        last_n 30
          (pw_new_processes w @
           map (watcher_started_entry ts)
             (filter (\<lambda>p. pi_pid p \<notin> set (pw_known_pids w) \<and>
                        watcher_is_interesting_process p = Inr True) procs) @
           List.map_filter
             (\<lambda>pid. map_option (watcher_terminated_entry ts pid) (pw_process_cache w pid))
             (filter (\<lambda>pid. pid \<notin> pi_pid ` set procs) (pw_known_pids w))) \<and>
      set (pw_known_pids (watcher_cycle ts procs w)) = pi_pid ` set procs \<and>
      distinct (pw_known_pids (watcher_cycle ts procs w)) \<and>
      dom (pw_process_cache (watcher_cycle ts procs w)) =
        (dom (pw_process_cache w) \<union>
         pi_pid ` {p \<in> set procs. pi_pid p \<notin> set (pw_known_pids w) \<and>
                                  watcher_is_interesting_process p = Inr True}) -
        {pid \<in> set (pw_known_pids w). pid \<notin> pi_pid ` set procs})"
proof (intro conjI impI)
  assume h: "(\<forall>p\<in>set procs. pi_pid p \<notin> set (pm_known_pids m) \<longrightarrow> pi_name p \<noteq> None) \<and>
    length (pm_processes m) \<le> 50"
  then have a: "\<forall>p\<in>set procs. pi_pid p \<notin> set (pm_known_pids m) \<longrightarrow> pi_name p \<noteq> None"
    and l: "length (pm_processes m) \<le> 50" by simp_all
  note r = monitor_cycle_result [OF a, of ts]
  show "pm_processes (monitor_cycle ts procs m) =
        last_n 50
          (pm_processes m @
           map (monitor_started_entry ts)
             (filter (\<lambda>p. pi_pid p \<notin> set (pm_known_pids m) \<and>
                        monitor_is_interesting_process (pi_name p) (cmdline_or_name p) = Inr True)
                procs) @
           map (monitor_terminated_entry ts)
             (filter (\<lambda>pid. pid \<notin> pi_pid ` set procs) (pm_known_pids m)))"
    unfolding r by (simp add: deque_extend_last_n [OF l])
  show "set (pm_known_pids (monitor_cycle ts procs m)) = pi_pid ` set procs"
    unfolding r by (simp add: set_foldl_set_add)
  show "distinct (pm_known_pids (monitor_cycle ts procs m))"
    unfolding r by (simp add: distinct_foldl_set_add)
next
  assume h: "(\<forall>p\<in>set procs. pi_pid p \<notin> set (pw_known_pids w) \<longrightarrow>
        pi_name p \<noteq> None \<and> pi_cmdline p \<noteq> None) \<and>
    length (pw_new_processes w) \<le> 30 \<and> distinct (pw_known_pids w)"
  then have a: "\<forall>p\<in>set procs. pi_pid p \<notin> set (pw_known_pids w) \<longrightarrow>
        pi_name p \<noteq> None \<and> pi_cmdline p \<noteq> None"
    and l: "length (pw_new_processes w) \<le> 30" and d: "distinct (pw_known_pids w)" by simp_all
  note r = watcher_cycle_result [OF a d, of ts]
  show "pw_new_processes (watcher_cycle ts procs w) =
        last_n 30
          (pw_new_processes w @
           map (watcher_started_entry ts)
             (filter (\<lambda>p. pi_pid p \<notin> set (pw_known_pids w) \<and>
                        watcher_is_interesting_process p = Inr True) procs) @
           List.map_filter
             (\<lambda>pid. map_option (watcher_terminated_entry ts pid) (pw_process_cache w pid))
             (filter (\<lambda>pid. pid \<notin> pi_pid ` set procs) (pw_known_pids w)))"
    unfolding r by (simp add: deque_extend_last_n [OF l])
  show "set (pw_known_pids (watcher_cycle ts procs w)) = pi_pid ` set procs"
    unfolding r by (simp add: set_foldl_set_add)
  show "distinct (pw_known_pids (watcher_cycle ts procs w))"
    unfolding r by (simp add: distinct_foldl_set_add)
  show "dom (pw_process_cache (watcher_cycle ts procs w)) =
        (dom (pw_process_cache w) \<union>
         pi_pid ` {p \<in> set procs. pi_pid p \<notin> set (pw_known_pids w) \<and>
                                  watcher_is_interesting_process p = Inr True}) -
        {pid \<in> set (pw_known_pids w). pid \<notin> pi_pid ` set procs}"
  proof -
    let ?S = "filter (\<lambda>p. pi_pid p \<notin> set (pw_known_pids w) \<and>
                        watcher_is_interesting_process p = Inr True) procs"
    let ?c1 = "foldl (\<lambda>c p. c(pi_pid p \<mapsto> p)) (pw_process_cache w) ?S"
    have c: "pw_process_cache (watcher_cycle ts procs w) =
               (\<lambda>x. if x \<in> set (pw_known_pids w) \<and> x \<notin> pi_pid ` set procs then None else ?c1 x)"
      unfolding r by simp
    have s: "set ?S = {p \<in> set procs. pi_pid p \<notin> set (pw_known_pids w) \<and>
                                  watcher_is_interesting_process p = Inr True}" by auto
    have "dom (\<lambda>x. if x \<in> set (pw_known_pids w) \<and> x \<notin> pi_pid ` set procs then None else ?c1 x) =
          dom ?c1 - {pid \<in> set (pw_known_pids w). pid \<notin> pi_pid ` set procs}"
      by (auto simp: dom_def)
    then show ?thesis unfolding c dom_foldl_upd s by simp
  qed
qed

text \<open>
  Instances of the theorem for the snapshots with pids \<open>{1, 2}\<close>, then \<open>{2, 3}\<close>,
  where pid 3 is a shell. \<open>ProcessMonitor\<close> queues \<open>started\<close> for pid 3 and
  \<open>terminated\<close> for pid 1. \<open>ProcessWatcher\<close>, when pid 1 is an editor that it reported
  as started in the first pass, queues \<open>started\<close> for pid 3 and \<open>terminated\<close> for pid 1
  in the second.
\<close>

theorem process_events_witness:
  "pm_processes
     (monitor_cycle ''10:00:03''
        [\<lparr>pi_pid = 2, pi_name = Some ''cron'', pi_cmdline = Some [''/usr/sbin/cron'', ''-f'']\<rparr>,
         \<lparr>pi_pid = 3, pi_name = Some ''bash'', pi_cmdline = Some [''-bash'']\<rparr>]
        (monitor_cycle ''10:00:00''
           [\<lparr>pi_pid = 1, pi_name = Some ''systemd'', pi_cmdline = Some [''/sbin/init'']\<rparr>,
            \<lparr>pi_pid = 2, pi_name = Some ''cron'', pi_cmdline = Some [''/usr/sbin/cron'', ''-f'']\<rparr>]
           monitor_init)) =
     [\<lparr>pe_pid = 3, pe_name = Some ''bash'', pe_cmdline = Some ''-bash'',
       pe_timestamp = ''10:00:03'', pe_action = ''started''\<rparr>,
      \<lparr>pe_pid = 1, pe_name = None, pe_cmdline = None,
       pe_timestamp = ''10:00:03'', pe_action = ''terminated''\<rparr>] \<and>
   pw_new_processes
     (watcher_cycle ''10:00:02''
        [\<lparr>pi_pid = 2, pi_name = Some ''cron'', pi_cmdline = Some [''/usr/sbin/cron'', ''-f'']\<rparr>,
         \<lparr>pi_pid = 3, pi_name = Some ''bash'', pi_cmdline = Some [''-bash'']\<rparr>]
        (watcher_cycle ''10:00:00''
           [\<lparr>pi_pid = 1, pi_name = Some ''vim'', pi_cmdline = Some [''vim'', ''a.txt'']\<rparr>,
            \<lparr>pi_pid = 2, pi_name = Some ''cron'', pi_cmdline = Some [''/usr/sbin/cron'', ''-f'']\<rparr>]
           watcher_init)) =
     [\<lparr>pe_pid = 1, pe_name = Some ''vim'', pe_cmdline = Some ''vim a.txt'',
       pe_timestamp = ''10:00:00'', pe_action = ''started''\<rparr>,
      \<lparr>pe_pid = 3, pe_name = Some ''bash'', pe_cmdline = Some ''-bash'',
       pe_timestamp = ''10:00:02'', pe_action = ''started''\<rparr>,
      \<lparr>pe_pid = 1, pe_name = Some ''vim'', pe_cmdline = None,
       pe_timestamp = ''10:00:02'', pe_action = ''terminated''\<rparr>]"
proof -
  let ?init = "\<lparr>pi_pid = 1, pi_name = Some ''systemd'', pi_cmdline = Some [''/sbin/init'']\<rparr>"
  let ?vim = "\<lparr>pi_pid = 1, pi_name = Some ''vim'', pi_cmdline = Some [''vim'', ''a.txt'']\<rparr>"
  let ?cron = "\<lparr>pi_pid = 2, pi_name = Some ''cron'', pi_cmdline = Some [''/usr/sbin/cron'', ''-f'']\<rparr>"
  let ?bash = "\<lparr>pi_pid = 3, pi_name = Some ''bash'', pi_cmdline = Some [''-bash'']\<rparr>"
  let ?ma = "monitor_cycle ''10:00:00'' [?init, ?cron] monitor_init"
  let ?wa = "watcher_cycle ''10:00:00'' [?vim, ?cron] watcher_init"
  have cn: "cmdline_or_name ?init = Some ''/sbin/init''"
    "cmdline_or_name ?cron = Some ''/usr/sbin/cron -f''"
    "cmdline_or_name ?bash = Some ''-bash''"
    "cmdline_or_name ?vim = Some ''vim a.txt''"
    by (simp_all add: cmdline_or_name_def)
  have mi: "monitor_is_interesting_process (Some ''systemd'') (Some ''/sbin/init'') = Inr False"
    "monitor_is_interesting_process (Some ''cron'') (Some ''/usr/sbin/cron -f'') = Inr False"
    "monitor_is_interesting_process (Some ''bash'') (Some ''-bash'') = Inr True"
    by (simp_all add: monitor_is_interesting_process_def monitor_interesting_names_def
        monitor_interesting_patterns_def Let_def lower_def lower_char_def startswith_def)
  have wi: "watcher_is_interesting_process ?vim = Inr True"
    "watcher_is_interesting_process ?cron = Inr False"
    "watcher_is_interesting_process ?bash = Inr True"
    by (simp_all add: watcher_is_interesting_process_def watcher_interesting_names_def Let_def
        lower_def lower_char_def startswith_def)
  have ma: "pm_processes ?ma = []" "pm_known_pids ?ma = [1, 2]"
    using cn mi
    by (simp_all add: monitor_cycle_def monitor_init_def Let_def set_add_def set_minus_def)
  have wa: "pw_new_processes ?wa = [watcher_started_entry ''10:00:00'' ?vim]"
    "pw_known_pids ?wa = [1, 2]" "pw_process_cache ?wa 1 = Some ?vim"
    using wi
    by (simp_all add: watcher_cycle_def watcher_init_def Let_def set_add_def set_minus_def
        deque_append_def)
  have m: "pm_processes (monitor_cycle ''10:00:03'' [?cron, ?bash] ?ma) =
             [monitor_started_entry ''10:00:03'' ?bash, monitor_terminated_entry ''10:00:03'' 1]"
  proof -
    have h: "(\<forall>p\<in>set [?cron, ?bash]. pi_pid p \<notin> set (pm_known_pids ?ma) \<longrightarrow> pi_name p \<noteq> None) \<and>
             length (pm_processes ?ma) \<le> 50"
      using ma by simp
    from process_events [of "[?cron, ?bash]" ?ma "''10:00:03''" ?wa, THEN conjunct1, THEN mp, OF h,
        THEN conjunct1]
    show ?thesis using ma cn mi by (simp add: last_n_def)
  qed
  have w: "pw_new_processes (watcher_cycle ''10:00:02'' [?cron, ?bash] ?wa) =
             [watcher_started_entry ''10:00:00'' ?vim, watcher_started_entry ''10:00:02'' ?bash,
              watcher_terminated_entry ''10:00:02'' 1 ?vim]"
  proof -
    have h: "(\<forall>p\<in>set [?cron, ?bash]. pi_pid p \<notin> set (pw_known_pids ?wa) \<longrightarrow>
                pi_name p \<noteq> None \<and> pi_cmdline p \<noteq> None) \<and>
             length (pw_new_processes ?wa) \<le> 30 \<and> distinct (pw_known_pids ?wa)"
      using wa by simp
    from process_events [of "[?cron, ?bash]" ?ma "''10:00:02''" ?wa, THEN conjunct2, THEN mp, OF h,
        THEN conjunct1]
    show ?thesis using wa wi by (simp add: last_n_def List.map_filter_simps)
  qed
  show ?thesis
    using m w cn
    by (simp add: monitor_started_entry_def monitor_terminated_entry_def
        watcher_started_entry_def watcher_terminated_entry_def)
qed

text \<open>
  The claim as the spec states it fails for \<open>ProcessWatcher\<close>: when pid 1 does not
  match the allow-list, the known pids change from \<open>{1, 2}\<close> to \<open>{2, 3}\<close> and the only
  event queued is \<open>started\<close> for pid 3; there is no \<open>terminated\<close> event for pid 1.
\<close>

theorem process_events_counterexample:
  "pw_known_pids
     (watcher_cycle ''10:00:00''
        [\<lparr>pi_pid = 1, pi_name = Some ''systemd'', pi_cmdline = Some [''/sbin/init'']\<rparr>,
         \<lparr>pi_pid = 2, pi_name = Some ''cron'', pi_cmdline = Some [''/usr/sbin/cron'', ''-f'']\<rparr>]
        watcher_init) = [1, 2] \<and>
   pw_known_pids
     (watcher_cycle ''10:00:02''
        [\<lparr>pi_pid = 2, pi_name = Some ''cron'', pi_cmdline = Some [''/usr/sbin/cron'', ''-f'']\<rparr>,
         \<lparr>pi_pid = 3, pi_name = Some ''bash'', pi_cmdline = Some [''-bash'']\<rparr>]
        (watcher_cycle ''10:00:00''
           [\<lparr>pi_pid = 1, pi_name = Some ''systemd'', pi_cmdline = Some [''/sbin/init'']\<rparr>,
            \<lparr>pi_pid = 2, pi_name = Some ''cron'', pi_cmdline = Some [''/usr/sbin/cron'', ''-f'']\<rparr>]
           watcher_init)) = [2, 3] \<and>
   pw_new_processes
     (watcher_cycle ''10:00:02''
        [\<lparr>pi_pid = 2, pi_name = Some ''cron'', pi_cmdline = Some [''/usr/sbin/cron'', ''-f'']\<rparr>,
         \<lparr>pi_pid = 3, pi_name = Some ''bash'', pi_cmdline = Some [''-bash'']\<rparr>]
        (watcher_cycle ''10:00:00''
           [\<lparr>pi_pid = 1, pi_name = Some ''systemd'', pi_cmdline = Some [''/sbin/init'']\<rparr>,
            \<lparr>pi_pid = 2, pi_name = Some ''cron'', pi_cmdline = Some [''/usr/sbin/cron'', ''-f'']\<rparr>]
           watcher_init)) =
     [\<lparr>pe_pid = 3, pe_name = Some ''bash'', pe_cmdline = Some ''-bash'',
       pe_timestamp = ''10:00:02'', pe_action = ''started''\<rparr>]"
proof -
  let ?init = "\<lparr>pi_pid = 1, pi_name = Some ''systemd'', pi_cmdline = Some [''/sbin/init'']\<rparr>"
  let ?cron = "\<lparr>pi_pid = 2, pi_name = Some ''cron'', pi_cmdline = Some [''/usr/sbin/cron'', ''-f'']\<rparr>"
  let ?bash = "\<lparr>pi_pid = 3, pi_name = Some ''bash'', pi_cmdline = Some [''-bash'']\<rparr>"
  have wi: "watcher_is_interesting_process ?init = Inr False"
    "watcher_is_interesting_process ?cron = Inr False"
    "watcher_is_interesting_process ?bash = Inr True"
    by (simp_all add: watcher_is_interesting_process_def watcher_interesting_names_def Let_def
        lower_def lower_char_def startswith_def)
  have a: "watcher_cycle ''10:00:00'' [?init, ?cron] watcher_init =
             \<lparr>pw_new_processes = [], pw_known_pids = [1, 2], pw_process_cache = Map.empty\<rparr>"
    using wi
    by (simp add: watcher_cycle_def watcher_init_def Let_def set_add_def set_minus_def)
  have b: "watcher_cycle ''10:00:02'' [?cron, ?bash]
             \<lparr>pw_new_processes = [], pw_known_pids = [1, 2], pw_process_cache = Map.empty\<rparr> =
           \<lparr>pw_new_processes = [watcher_started_entry ''10:00:02'' ?bash], pw_known_pids = [2, 3],
            pw_process_cache = [3 \<mapsto> ?bash]\<rparr>"
    using wi
    by (simp add: watcher_cycle_def Let_def set_add_def set_minus_def deque_append_def)
  show ?thesis unfolding a b
    by (simp add: watcher_started_entry_def cmdline_or_name_def)
qed

end
